theory Spec2Isabelle
  imports Main "HOL-Library.Sublist"
begin

section \<open>Errors\<close>

text \<open>
  The error values the modelled functions return. A Go panic (index out of range,
  integer division by zero, a channel whose size is out of range) ends the function too, so it is
  a value of the same type, kept apart by its constructor \<open>RuntimePanic\<close>.
  \<open>errInvalidPoolSet\<close> stands for \<^verbatim>\<open>fmt.Errorf("invalid pool/set")\<close>, and
  \<open>OtherError\<close> for any error of a collaborator that the listing code does not name.
\<close>

datatype error =
    errInvalidArgument
  | ErrInvalidNumberOfErasureEndpoints
  | ErrInvalidErasureSetSize
  | EOF
  | ctxCanceled
  | ctxDeadlineExceeded
  | errDiskFull
  | errInvalidPoolSet
  | OtherError string
  | RuntimePanic string

section \<open>Endpoint layout planner (cmd/endpoint-ellipses.go)\<close>

text \<open>
  \<^verbatim>\<open>uint64\<close> values are natural numbers here: the planner only compares, divides and takes
  remainders of them, none of which can wrap; the one product, in \<open>getTotalSizes\<close>, has its
  wrap-around written out.
\<close>

text \<open>\<^verbatim>\<open>ellipses.Pattern\<close> and \<^verbatim>\<open>ellipses.ArgPattern\<close> of the imported package.\<close>

record Pattern =
  Prefix :: string
  Suffix :: string
  Seq :: "string list"

type_synonym ArgPattern = "Pattern list"

record endpointSet =
  argPatterns :: "ArgPattern list"
  endpoints :: "string list"
  setIndexes :: "nat list list"

definition setSizes :: "nat list" where
  "setSizes = [2, 3, 4, 5, 6, 7, 8, 9, 10, 11, 12, 13, 14, 15, 16]"

text \<open>The closure \<^verbatim>\<open>gcd\<close> of \<open>getDivisibleSize\<close>: \<^verbatim>\<open>for y != 0 { x, y = y, x%y }\<close>.\<close>

function gcd_loop :: "nat \<Rightarrow> nat \<Rightarrow> nat" where
  "gcd_loop x y = (if y \<noteq> 0 then gcd_loop y (x mod y) else x)"
  by pat_completeness auto
termination
  by (relation "measure (\<lambda>(x, y). y)") auto

declare gcd_loop.simps [simp del]

text \<open>\<open>getDivisibleSize\<close> reads \<^verbatim>\<open>totalSizes[0]\<close>, which panics on an empty slice.\<close>

definition getDivisibleSize :: "nat list \<Rightarrow> error + nat" where
  "getDivisibleSize totalSizes =
     (case totalSizes of
        [] \<Rightarrow> Inl (RuntimePanic ''index out of range'')
      | t # ts \<Rightarrow> Inr (foldl gcd_loop t ts))"

definition isValidSetSize :: "nat \<Rightarrow> bool" where
  "isValidSetSize count = (count \<ge> hd setSizes \<and> count \<le> last setSizes)"

text \<open>
  The loop of \<open>commonSetDriveCount\<close> over \<^verbatim>\<open>setCounts\<close>, with the variables \<^verbatim>\<open>prevD\<close>
  and \<^verbatim>\<open>setSize\<close> as arguments. \<^verbatim>\<open>divisibleSize%cnt\<close> panics when \<^verbatim>\<open>cnt\<close> is 0.
\<close>

fun commonSetDriveCount_loop :: "nat \<Rightarrow> nat list \<Rightarrow> nat \<Rightarrow> nat \<Rightarrow> error + nat" where
  "commonSetDriveCount_loop divisibleSize [] prevD setSize = Inr setSize"
| "commonSetDriveCount_loop divisibleSize (cnt # cnts) prevD setSize =
     (if cnt = 0 then Inl (RuntimePanic ''integer divide by zero'')
      else if divisibleSize mod cnt = 0 then
        (if divisibleSize div cnt \<le> prevD
         then commonSetDriveCount_loop divisibleSize cnts (divisibleSize div cnt) cnt
         else commonSetDriveCount_loop divisibleSize cnts prevD setSize)
      else commonSetDriveCount_loop divisibleSize cnts prevD setSize)"

definition commonSetDriveCount :: "nat \<Rightarrow> nat list \<Rightarrow> error + nat" where
  "commonSetDriveCount divisibleSize setCounts =
     (if setCounts = [] then Inl (RuntimePanic ''index out of range'')
      else if divisibleSize < last setCounts then Inr divisibleSize
      else if hd setCounts = 0 then Inl (RuntimePanic ''integer divide by zero'')
      else commonSetDriveCount_loop divisibleSize setCounts (divisibleSize div hd setCounts) 0)"

text \<open>
  The two inner loops of \<open>possibleSetCountsWithSymmetry\<close>, over the patterns of one
  argument and over the arguments. The variable \<^verbatim>\<open>symmetry\<close> is assigned in every
  iteration, so it is threaded through as the last argument.
\<close>

fun symmetry_patterns :: "nat \<Rightarrow> Pattern list \<Rightarrow> bool \<Rightarrow> error + bool" where
  "symmetry_patterns ss [] symmetry = Inr symmetry"
| "symmetry_patterns ss (p # ps) symmetry =
     (if length (Seq p) > ss then
        (if ss = 0 then Inl (RuntimePanic ''integer divide by zero'')
         else symmetry_patterns ss ps (length (Seq p) mod ss = 0))
      else
        (if length (Seq p) = 0 then Inl (RuntimePanic ''integer divide by zero'')
         else symmetry_patterns ss ps (ss mod length (Seq p) = 0)))"

fun symmetry_args :: "nat \<Rightarrow> ArgPattern list \<Rightarrow> bool \<Rightarrow> error + bool" where
  "symmetry_args ss [] symmetry = Inr symmetry"
| "symmetry_args ss (argPattern # rest) symmetry =
     (case symmetry_patterns ss argPattern symmetry of
        Inl e \<Rightarrow> Inl e
      | Inr symmetry' \<Rightarrow> symmetry_args ss rest symmetry')"

text \<open>
  The outer loop. \<^verbatim>\<open>argPatterns\<close> is a slice that may be \<^verbatim>\<open>nil\<close> (\<open>None\<close>);
  ranging over a nil slice runs no iteration. \<^verbatim>\<open>newSetCounts\<close> is a Go map used as a
  set: the list of its keys, without duplicates.
\<close>

fun possibleSetCountsWithSymmetry_loop ::
  "nat list \<Rightarrow> ArgPattern list option \<Rightarrow> nat list \<Rightarrow> error + nat list" where
  "possibleSetCountsWithSymmetry_loop [] aps newSetCounts = Inr newSetCounts"
| "possibleSetCountsWithSymmetry_loop (ss # rest) aps newSetCounts =
     (case symmetry_args ss (case aps of None \<Rightarrow> [] | Some l \<Rightarrow> l) False of
        Inl e \<Rightarrow> Inl e
      | Inr symmetry \<Rightarrow>
          possibleSetCountsWithSymmetry_loop rest aps
            (if ss \<notin> set newSetCounts \<and> (symmetry \<or> aps = None)
             then newSetCounts @ [ss] else newSetCounts))"

text \<open>The keys of the map are collected in some order and then sorted ascending.\<close>

definition possibleSetCountsWithSymmetry ::
  "nat list \<Rightarrow> ArgPattern list option \<Rightarrow> error + nat list" where
  "possibleSetCountsWithSymmetry setCounts aps =
     (case possibleSetCountsWithSymmetry_loop setCounts aps [] of
        Inl e \<Rightarrow> Inl e
      | Inr newSetCounts \<Rightarrow> Inr (sort newSetCounts))"

text \<open>The closure \<^verbatim>\<open>possibleSetCounts\<close> of \<open>getSetIndexes\<close>.\<close>

definition possibleSetCounts :: "nat \<Rightarrow> nat list" where
  "possibleSetCounts setSize = filter (\<lambda>s. setSize mod s = 0) setSizes"

text \<open>
  The tail of \<open>getSetIndexes\<close> from the check of \<^verbatim>\<open>isValidSetSize\<close> on: the range check
  and the two nested loops that fill \<^verbatim>\<open>setIndexes\<close>.
\<close>

definition fillSetIndexes :: "nat list \<Rightarrow> nat \<Rightarrow> error + nat list list" where
  "fillSetIndexes totalSizes setSize =
     (if \<not> isValidSetSize setSize then Inl ErrInvalidNumberOfErasureEndpoints
      else Inr (map (\<lambda>totalSize. replicate (totalSize div setSize) setSize) totalSizes))"

text \<open>
  \<open>getSetIndexes\<close>. The error messages are left out; an error is identified by its
  constructor in \<^verbatim>\<open>config\<close>. The function writes the global
  \<^verbatim>\<open>globalCustomErasureDriveCount\<close>: the model takes its value and returns the new one
  beside the result.
\<close>

definition getSetIndexes ::
  "string list \<Rightarrow> nat list \<Rightarrow> nat \<Rightarrow> ArgPattern list option \<Rightarrow> bool
     \<Rightarrow> (error + nat list list) \<times> bool" where
  "getSetIndexes args totalSizes customSetDriveCount aps globalCustomErasureDriveCount =
     (if totalSizes = [] \<or> args = [] then (Inl errInvalidArgument, globalCustomErasureDriveCount)
      else if list_ex (\<lambda>totalSize. totalSize < hd setSizes \<or> totalSize < customSetDriveCount) totalSizes
      then (Inl ErrInvalidNumberOfErasureEndpoints, globalCustomErasureDriveCount)
      else
        (case getDivisibleSize totalSizes of
           Inl e \<Rightarrow> (Inl e, globalCustomErasureDriveCount)
         | Inr commonSize \<Rightarrow>
             if possibleSetCounts commonSize = []
             then (Inl ErrInvalidNumberOfErasureEndpoints, globalCustomErasureDriveCount)
             else if customSetDriveCount > 0 then
               (if customSetDriveCount \<notin> set (possibleSetCounts commonSize)
                then (Inl ErrInvalidErasureSetSize, globalCustomErasureDriveCount)
                else (fillSetIndexes totalSizes customSetDriveCount, True))
             else
               (case possibleSetCountsWithSymmetry (possibleSetCounts commonSize) aps of
                  Inl e \<Rightarrow> (Inl e, globalCustomErasureDriveCount)
                | Inr setCounts \<Rightarrow>
                    if setCounts = []
                    then (Inl ErrInvalidNumberOfErasureEndpoints, globalCustomErasureDriveCount)
                    else
                      (case commonSetDriveCount commonSize setCounts of
                         Inl e \<Rightarrow> (Inl e, globalCustomErasureDriveCount)
                       | Inr setSize \<Rightarrow>
                           (fillSetIndexes totalSizes setSize, globalCustomErasureDriveCount)))))"

text \<open>
  \<open>getEndpoints\<close>: the saved endpoints, or the expansion of every argument pattern.
  \<^verbatim>\<open>ArgPattern.Expand\<close> belongs to the imported package and is a parameter;
  \<^verbatim>\<open>strings.Join(lbls, "")\<close> is \<open>concat\<close>. The receiver is a value, so the
  assignment to \<^verbatim>\<open>s.endpoints\<close> is lost.
\<close>

definition getEndpoints :: "(ArgPattern \<Rightarrow> string list list) \<Rightarrow> endpointSet \<Rightarrow> string list" where
  "getEndpoints Expand s =
     (if endpoints s \<noteq> [] then endpoints s
      else concat (map (\<lambda>argPattern. map concat (Expand argPattern)) (argPatterns s)))"

text \<open>
  \<open>Get\<close>: the inner loop over \<^verbatim>\<open>s.setIndexes[i]\<close> and the outer loop over
  \<^verbatim>\<open>s.setIndexes\<close>, with \<^verbatim>\<open>k\<close> and \<^verbatim>\<open>sets\<close> threaded through. A Go slice has a
  capacity beyond its length: \<open>spare\<close> is what the backing array of \<^verbatim>\<open>endpoints\<close>
  holds past the length of the slice (it is the caller's array for saved endpoints, and the
  allocation of \<^verbatim>\<open>append\<close> otherwise), so the capacity is
  \<open>length eps + length spare\<close>. The slice expression \<^verbatim>\<open>endpoints[k:n+k]\<close> panics
  when its upper bound is beyond the capacity, and reads into the spare elements when it is
  beyond the length only.
\<close>

fun Get_inner :: "string list \<Rightarrow> string list \<Rightarrow> nat list \<Rightarrow> nat \<Rightarrow> string list list
    \<Rightarrow> error + (nat \<times> string list list)" where
  "Get_inner eps spare [] k sets = Inr (k, sets)"
| "Get_inner eps spare (n # ns) k sets =
     (if n + k > length eps + length spare
      then Inl (RuntimePanic ''slice bounds out of range'')
      else Get_inner eps spare ns (n + k) (sets @ [take n (drop k (eps @ spare))]))"

fun Get_outer :: "string list \<Rightarrow> string list \<Rightarrow> nat list list \<Rightarrow> nat \<Rightarrow> string list list
    \<Rightarrow> error + (nat \<times> string list list)" where
  "Get_outer eps spare [] k sets = Inr (k, sets)"
| "Get_outer eps spare (idx # rest) k sets =
     (case Get_inner eps spare idx k sets of
        Inl e \<Rightarrow> Inl e
      | Inr (k', sets') \<Rightarrow> Get_outer eps spare rest k' sets')"

definition Get ::
  "(ArgPattern \<Rightarrow> string list list) \<Rightarrow> string list \<Rightarrow> endpointSet \<Rightarrow> error + string list list" where
  "Get Expand spare s =
     (case Get_outer (getEndpoints Expand s) spare (setIndexes s) 0 [] of
        Inl e \<Rightarrow> Inl e
      | Inr (k, sets) \<Rightarrow> Inr sets)"

text \<open>\<open>getTotalSizes\<close>: the product of the sequence lengths of every argument, in \<^verbatim>\<open>uint64\<close>.\<close>

definition getTotalSizes :: "ArgPattern list \<Rightarrow> nat list" where
  "getTotalSizes aps =
     map (\<lambda>argPattern. foldl (\<lambda>totalSize p. (totalSize * length (Seq p)) mod 2 ^ 64) 1 argPattern) aps"

text \<open>
  The symmetry condition in the words of the specification, to compare with what
  \<open>possibleSetCountsWithSymmetry\<close> computes: every pattern of every argument has a
  length \<open>L\<close> with \<open>L mod s = 0\<close> when \<open>L > s\<close>, and \<open>s mod L = 0\<close> otherwise.
\<close>

definition symmetric_with_every_pattern :: "nat \<Rightarrow> ArgPattern list \<Rightarrow> bool" where
  "symmetric_with_every_pattern s aps =
     list_all (\<lambda>argPattern.
       list_all (\<lambda>p. if length (Seq p) > s then length (Seq p) mod s = 0
                     else s mod length (Seq p) = 0) argPattern) aps"

section \<open>Object listing (cmd/metacache-server-pool.go)\<close>

subsection \<open>Entries and the conflict resolver of the merge\<close>

text \<open>
  A listing entry, and the decoded metadata of an object with its versions. A version
  carries its modification time (Unix nanoseconds). Of \<^verbatim>\<open>metaCacheEntry\<close> the listing
  code reads \<^verbatim>\<open>name\<close> and \<^verbatim>\<open>metadata\<close>; of the decoded metadata it reads \<^verbatim>\<open>versions\<close>.
\<close>

record metaCacheEntry =
  name :: string
  metadata :: string

record xlMetaV2Version =
  ModTime :: int
  VersionID :: string

record xlMetaV2 =
  versions :: "xlMetaV2Version list"

text \<open>
  The closure \<^verbatim>\<open>pick\<close> that both \<open>listMerged\<close> functions hand to
  \<^verbatim>\<open>mergeEntryChannels\<close> (the two closures are the same text); \<open>True\<close> means that
  \<^verbatim>\<open>other\<close> replaces \<^verbatim>\<open>existing\<close>. The methods \<^verbatim>\<open>isDir\<close>, \<^verbatim>\<open>xlmeta\<close> and
  \<^verbatim>\<open>latestModtime\<close> are not part of the sources at hand and are parameters. Times are
  integers: \<^verbatim>\<open>Equal\<close> is equality of instants and \<^verbatim>\<open>After\<close> is \<open>>\<close>. The test
  \<^verbatim>\<open>!oMeta.latestModtime().Equal(oMeta.latestModtime())\<close> compares \<^verbatim>\<open>oMeta\<close> with
  itself, and so does the model.
\<close>

definition pick ::
  "(metaCacheEntry \<Rightarrow> bool) \<Rightarrow> (metaCacheEntry \<Rightarrow> error + xlMetaV2) \<Rightarrow> (xlMetaV2 \<Rightarrow> int)
     \<Rightarrow> metaCacheEntry \<Rightarrow> metaCacheEntry \<Rightarrow> bool" where
  "pick isDir xlmeta latestModtime existing other =
     (if isDir existing \<and> \<not> isDir other then True
      else if \<not> isDir existing \<and> isDir other then False
      else
        (case xlmeta existing of
           Inl err \<Rightarrow> True
         | Inr eMeta \<Rightarrow>
             (case xlmeta other of
                Inl err \<Rightarrow> False
              | Inr oMeta \<Rightarrow>
                  if \<not> (latestModtime oMeta = latestModtime oMeta)
                  then latestModtime oMeta > latestModtime eMeta
                  else length (versions oMeta) > length (versions eMeta))))"

text \<open>
  The tie-break in the words of the specification, for two entries whose metadata
  decodes: the other entry replaces the existing one when it is an object and the existing
  one a directory, or both are objects and its latest version is strictly newer, or the
  latest modification times are equal and it has strictly more versions.
\<close>

definition pick_specified ::
  "(metaCacheEntry \<Rightarrow> bool) \<Rightarrow> (xlMetaV2 \<Rightarrow> int) \<Rightarrow> metaCacheEntry \<Rightarrow> xlMetaV2
     \<Rightarrow> metaCacheEntry \<Rightarrow> xlMetaV2 \<Rightarrow> bool" where
  "pick_specified isDir latestModtime existing eMeta other oMeta =
     ((isDir existing \<and> \<not> isDir other)
      \<or> (\<not> isDir existing \<and> \<not> isDir other \<and> latestModtime oMeta > latestModtime eMeta)
      \<or> (\<not> isDir existing \<and> \<not> isDir other \<and> latestModtime oMeta = latestModtime eMeta
          \<and> length (versions oMeta) > length (versions eMeta)))"

subsection \<open>Listing options\<close>

text \<open>
  \<^verbatim>\<open>listPathOptions\<close>, with the fields that the functions of this file read or write.
  \<^verbatim>\<open>Limit\<close>, \<^verbatim>\<open>pool\<close> and \<^verbatim>\<open>set\<close> are Go \<^verbatim>\<open>int\<close>s. The lifecycle, retention and
  replication configurations are opaque to the listing code and are kept as their
  serialised text; a nil pointer is \<open>None\<close>. The field \<^verbatim>\<open>set\<close> is \<open>set'\<close> here, since
  \<open>set\<close> is taken.
\<close>

type_synonym lifecycle_Lifecycle = string
type_synonym objectlock_Retention = string
type_synonym replication_Config = string

record listPathOptions =
  ID :: string
  Bucket :: string
  BaseDir :: string
  Prefix :: string
  Marker :: string
  Limit :: int
  Separator :: string
  Recursive :: bool
  IncludeDirectories :: bool
  Transient :: bool
  Create :: bool
  StopDiskAtLimit :: bool
  pool :: int
  set' :: int
  Lifecycle :: "lifecycle_Lifecycle option"
  Retention :: "objectlock_Retention option"
  Replication_Config :: "replication_Config option"

subsection \<open>The bucket-action filter\<close>

text \<open>The actions of package \<^verbatim>\<open>lifecycle\<close>; \<open>applyBucketActions\<close> names four of them.\<close>

datatype lifecycle_Action =
    NoneAction
  | DeleteAction
  | DeleteVersionAction
  | TransitionAction
  | TransitionVersionAction
  | DeleteRestoredAction
  | DeleteRestoredVersionAction

text \<open>
  What \<open>applyBucketActions\<close> calls and this slice of the repository does not contain:
  decoding an entry (\<^verbatim>\<open>fileInfo\<close>), the versioning configuration of the bucket
  (\<^verbatim>\<open>globalBucketVersioningSys.Get\<close>, \<open>None\<close> for nil, and \<^verbatim>\<open>Versioned\<close>),
  \<^verbatim>\<open>ToObjectInfo\<close> and \<^verbatim>\<open>evalActionFromLifecycle\<close>. The types \<open>'fi\<close>, \<open>'oi\<close> and \<open>'vc\<close>
  stand for \<^verbatim>\<open>FileInfo\<close>, \<^verbatim>\<open>ObjectInfo\<close> and the versioning configuration.
\<close>

record ('fi, 'oi, 'vc) bucket_deps =
  fileInfo :: "metaCacheEntry \<Rightarrow> string \<Rightarrow> error + 'fi"
  versioningGet :: "string \<Rightarrow> 'vc option"
  Versioned :: "'vc \<Rightarrow> string \<Rightarrow> bool"
  ToObjectInfo :: "'fi \<Rightarrow> string \<Rightarrow> string \<Rightarrow> bool \<Rightarrow> 'oi"
  evalActionFromLifecycle ::
    "lifecycle_Lifecycle \<Rightarrow> objectlock_Retention option \<Rightarrow> 'oi \<Rightarrow> bool \<Rightarrow> lifecycle_Action"

text \<open>
  Modelled from the spec: \<^verbatim>\<open>globalExpiryState.enqueueByDays\<close> and
  \<^verbatim>\<open>queueReplicationHeal\<close> are declared outside the sources at hand. By the
  specification the first enqueues an expiration job (a restore-expiration job when its
  restored flag is set) and the second enqueues a replication-heal check; a call adds one
  job, made of its arguments, to the end of the queue.

  The effects of \<open>applyBucketActions\<close> are the entries sent on \<^verbatim>\<open>out\<close> and whether it
  has been closed, the expiration jobs enqueued by \<^verbatim>\<open>enqueueByDays\<close> (object, restored
  flag, version flag), and the checks enqueued by \<^verbatim>\<open>queueReplicationHeal\<close>.
\<close>

record 'oi bucket_effects =
  out :: "metaCacheEntry list"
  out_closed :: bool
  enqueueByDays :: "('oi \<times> bool \<times> bool) list"
  queueReplicationHeal :: "'oi list"

text \<open>
  The object information of an entry that decodes, as the loop body computes it, and the
  lifecycle action (\<open>None\<close> when no lifecycle is configured, so that none is evaluated).
\<close>

definition objInfoOf ::
  "('fi, 'oi, 'vc) bucket_deps \<Rightarrow> listPathOptions \<Rightarrow> metaCacheEntry \<Rightarrow> 'fi \<Rightarrow> 'oi" where
  "objInfoOf D opt obj fi =
     ToObjectInfo D fi (Bucket opt) (name obj)
       (case versioningGet D (Bucket opt) of
          None \<Rightarrow> False
        | Some vcfg \<Rightarrow> Versioned D vcfg (name obj))"

definition actionOf ::
  "('fi, 'oi, 'vc) bucket_deps \<Rightarrow> listPathOptions \<Rightarrow> 'oi \<Rightarrow> lifecycle_Action option" where
  "actionOf D opt objInfo =
     (case Lifecycle opt of
        None \<Rightarrow> None
      | Some lc \<Rightarrow> Some (evalActionFromLifecycle D lc (Retention opt) objInfo False))"

text \<open>
  The loop of \<open>applyBucketActions\<close>. The channel \<^verbatim>\<open>in\<close> is the list of the entries sent
  on it before it is closed. Each \<^verbatim>\<open>select\<close> has a branch on \<^verbatim>\<open>ctx.Done()\<close>;
  \<open>ctxDone k\<close> tells whether the \<open>k\<close>-th \<^verbatim>\<open>select\<close> the function runs takes that
  branch (the context has been cancelled by then), and \<open>k\<close> counts them. The function
  that is never true is a context that is not cancelled while the function runs.
\<close>

fun applyBucketActions_loop ::
  "('fi, 'oi, 'vc) bucket_deps \<Rightarrow> listPathOptions \<Rightarrow> (nat \<Rightarrow> bool) \<Rightarrow> nat
     \<Rightarrow> metaCacheEntry list \<Rightarrow> 'oi bucket_effects \<Rightarrow> 'oi bucket_effects" where
  "applyBucketActions_loop D opt ctxDone k [] eff = eff"
| "applyBucketActions_loop D opt ctxDone k (obj # rest) eff =
     (if ctxDone k then eff
      else
        (case fileInfo D obj (Bucket opt) of
           Inl err \<Rightarrow> applyBucketActions_loop D opt ctxDone (Suc k) rest eff
         | Inr fi \<Rightarrow>
             (let objInfo = objInfoOf D opt obj fi;
                  action = actionOf D opt objInfo
              in if action = Some DeleteVersionAction \<or> action = Some DeleteAction then
                   applyBucketActions_loop D opt ctxDone (Suc k) rest
                     (eff\<lparr>enqueueByDays := enqueueByDays eff
                            @ [(objInfo, False, action = Some DeleteVersionAction)]\<rparr>)
                 else if action = Some DeleteRestoredAction
                         \<or> action = Some DeleteRestoredVersionAction then
                   applyBucketActions_loop D opt ctxDone (Suc k) rest
                     (eff\<lparr>enqueueByDays := enqueueByDays eff
                            @ [(objInfo, True, action = Some DeleteRestoredVersionAction)]\<rparr>)
                 else if ctxDone (Suc k) then eff
                 else
                   applyBucketActions_loop D opt ctxDone (Suc (Suc k)) rest
                     (eff\<lparr>out := out eff @ [obj],
                          queueReplicationHeal := queueReplicationHeal eff @ [objInfo]\<rparr>))))"

text \<open>\<open>applyBucketActions\<close>: the loop, and the deferred \<^verbatim>\<open>close(out)\<close> on every return.\<close>

definition applyBucketActions ::
  "('fi, 'oi, 'vc) bucket_deps \<Rightarrow> listPathOptions \<Rightarrow> (nat \<Rightarrow> bool) \<Rightarrow> metaCacheEntry list
     \<Rightarrow> 'oi bucket_effects" where
  "applyBucketActions D opt ctxDone inp =
     (applyBucketActions_loop D opt ctxDone 0 inp
        \<lparr>out = [], out_closed = False, enqueueByDays = [], queueReplicationHeal = []\<rparr>)
       \<lparr>out_closed := True\<rparr>"

text \<open>
  The three outcomes of the loop body for one entry, to state what the filter does:
  the entry expires (verdict Delete or DeleteVersion), its restored copy expires
  (DeleteRestored or DeleteRestoredVersion), or it decodes and has neither verdict.
  \<open>expiryJob\<close> is the job enqueued for an entry of the first two kinds.
\<close>

definition expires :: "('fi, 'oi, 'vc) bucket_deps \<Rightarrow> listPathOptions \<Rightarrow> metaCacheEntry \<Rightarrow> bool" where
  "expires D opt obj =
     (case fileInfo D obj (Bucket opt) of
        Inl err \<Rightarrow> False
      | Inr fi \<Rightarrow> actionOf D opt (objInfoOf D opt obj fi) = Some DeleteVersionAction
                 \<or> actionOf D opt (objInfoOf D opt obj fi) = Some DeleteAction)"

definition restoreExpires ::
  "('fi, 'oi, 'vc) bucket_deps \<Rightarrow> listPathOptions \<Rightarrow> metaCacheEntry \<Rightarrow> bool" where
  "restoreExpires D opt obj =
     (case fileInfo D obj (Bucket opt) of
        Inl err \<Rightarrow> False
      | Inr fi \<Rightarrow> actionOf D opt (objInfoOf D opt obj fi) = Some DeleteRestoredAction
                 \<or> actionOf D opt (objInfoOf D opt obj fi) = Some DeleteRestoredVersionAction)"

definition passes :: "('fi, 'oi, 'vc) bucket_deps \<Rightarrow> listPathOptions \<Rightarrow> metaCacheEntry \<Rightarrow> bool" where
  "passes D opt obj =
     (case fileInfo D obj (Bucket opt) of
        Inl err \<Rightarrow> False
      | Inr fi \<Rightarrow> \<not> expires D opt obj \<and> \<not> restoreExpires D opt obj)"

definition expiryJob ::
  "('fi, 'oi, 'vc) bucket_deps \<Rightarrow> listPathOptions \<Rightarrow> metaCacheEntry \<Rightarrow> 'oi \<times> bool \<times> bool" where
  "expiryJob D opt obj =
     (let objInfo = objInfoOf D opt obj (projr (fileInfo D obj (Bucket opt)))
      in (objInfo, restoreExpires D opt obj,
          actionOf D opt objInfo = Some DeleteVersionAction
          \<or> actionOf D opt objInfo = Some DeleteRestoredVersionAction))"

definition healJob ::
  "('fi, 'oi, 'vc) bucket_deps \<Rightarrow> listPathOptions \<Rightarrow> metaCacheEntry \<Rightarrow> 'oi" where
  "healJob D opt obj = objInfoOf D opt obj (projr (fileInfo D obj (Bucket opt)))"

text \<open>
  The number of \<^verbatim>\<open>select\<close> statements the loop has run when it comes to wait for the
  entry at position \<open>i\<close> of the input, provided it gets that far: one for every earlier
  entry, and one more for every earlier entry that it sent.
\<close>

definition selectsBefore ::
  "('fi, 'oi, 'vc) bucket_deps \<Rightarrow> listPathOptions \<Rightarrow> metaCacheEntry list \<Rightarrow> nat \<Rightarrow> nat" where
  "selectsBefore D opt inp i = i + length (filter (passes D opt) (take i inp))"

text \<open>
  The loop, entered after \<open>k\<close> \<^verbatim>\<open>select\<close> statements, handles exactly the first \<open>n\<close>
  entries of the input under the schedule \<open>ctxDone\<close>: none of the \<^verbatim>\<open>select\<close>
  statements run for these entries is cancelled, and, when \<open>n\<close> is not the whole input,
  the loop stops at the entry at position \<open>n\<close>, at the \<^verbatim>\<open>select\<close> that waits for it
  or at the one that sends it.
\<close>

definition handledUpTo ::
  "('fi, 'oi, 'vc) bucket_deps \<Rightarrow> listPathOptions \<Rightarrow> (nat \<Rightarrow> bool) \<Rightarrow> nat \<Rightarrow> metaCacheEntry list \<Rightarrow> nat \<Rightarrow> bool" where
  "handledUpTo D opt ctxDone k inp n =
     ((\<forall>i<n. \<not> ctxDone (k + selectsBefore D opt inp i)
             \<and> (passes D opt (inp ! i) \<longrightarrow> \<not> ctxDone (Suc (k + selectsBefore D opt inp i))))
      \<and> (n < length inp \<longrightarrow>
            ctxDone (k + selectsBefore D opt inp n)
            \<or> (passes D opt (inp ! n) \<and> ctxDone (Suc (k + selectsBefore D opt inp n)))))"

subsection \<open>The listing engine\<close>

text \<open>
  \<^verbatim>\<open>metaCacheEntriesSorted\<close> (its slice \<^verbatim>\<open>o\<close> is \<open>o'\<close> here), the part of \<^verbatim>\<open>metacache\<close>
  that \<open>listPath\<close> reads (\<^verbatim>\<open>id\<close> is \<open>id'\<close>), and the topology: pools of sets. A set
  (\<^verbatim>\<open>erasureObjects\<close>) is opaque to the listing code and is named by a number.
\<close>

record metaCacheEntriesSorted =
  o' :: "metaCacheEntry list"
  listID :: string
  reuse :: bool

datatype scanStatus = scanStateNone | scanStateStarted | scanStateSuccess | scanStateError

record metacache =
  id' :: string
  status :: scanStatus
  fileNotFound :: bool

datatype erasureObjects = ErasureObjects nat

record erasureSets =
  sets :: "erasureObjects list"

record erasureServerPools =
  serverPools :: "erasureSets list"

text \<open>
  Modelled from the spec: the constants \<^verbatim>\<open>slashSeparator\<close>, \<^verbatim>\<open>SlashSeparator\<close> and
  \<^verbatim>\<open>minioMetaBucket\<close> are declared outside the sources at hand. The separator of the
  specification is \<^verbatim>\<open>"/"\<close>; the name of the meta bucket has no bearing on any result.
\<close>

definition slashSeparator :: string where
  "slashSeparator = ''/''"

definition SlashSeparator :: string where
  "SlashSeparator = ''/''"

definition minioMetaBucket :: string where
  "minioMetaBucket = ''.minio.sys''"

text \<open>
  Modelled from the spec: \<^verbatim>\<open>truncate\<close> and \<^verbatim>\<open>len\<close> of \<^verbatim>\<open>metaCacheEntriesSorted\<close> and
  the helper \<^verbatim>\<open>IsErr\<close> are declared outside the sources at hand. \<open>truncate' n\<close> keeps the
  first \<open>n\<close> entries of a longer list (``the returned page contains at most L entries after
  truncation''), and \<open>IsErr err errs\<close> holds when \<open>err\<close> is one of \<open>errs\<close>, where
  \<open>None\<close> is the nil error.
\<close>

definition truncate' :: "int \<Rightarrow> metaCacheEntriesSorted \<Rightarrow> metaCacheEntriesSorted" where
  "truncate' n m = (if int (length (o' m)) > n then m\<lparr>o' := take (nat n) (o' m)\<rparr> else m)"

definition len :: "metaCacheEntriesSorted \<Rightarrow> int" where
  "len m = int (length (o' m))"

definition IsErr :: "error option \<Rightarrow> error option list \<Rightarrow> bool" where
  "IsErr err errs = (err \<in> set errs)"

text \<open>The zero value of the named result \<^verbatim>\<open>entries\<close>.\<close>

definition no_entries :: metaCacheEntriesSorted where
  "no_entries = \<lparr>o' = [], listID = [], reuse = False\<rparr>"

text \<open>
  What the listing engine calls and this slice of the repository does not contain, as
  parameters. A function that returns \<^verbatim>\<open>(value, error)\<close> returns a pair with an optional
  error (\<open>None\<close> is nil), or a sum where the value is only read when the error is nil.
  \<^item> \<open>checkListObjsArgs bucket prefix marker\<close>; \<open>HasPrefix s prefix\<close>;
    \<open>parseMarker\<close> and \<open>SetFilter\<close>, which update the options; \<open>baseDirFromPrefix\<close>;
    \<open>isReservedOrInvalidBucket\<close>; \<open>pathJoin\<close>.
  \<^item> \<open>restClientFromHash\<close>: the peer that owns the cache, \<open>None\<close> for a nil client.
  \<^item> \<open>findCache\<close>, the answer of the local metacache manager for the bucket, and
    \<open>GetMetacacheListing\<close>, the answer of the peer.
  \<^item> \<open>mustGetUUID n\<close>: the \<open>n\<close>-th identifier drawn in this call.
  \<^item> \<open>streamMetadataParts\<close> of a set; \<open>getAvailablePoolIdx\<close> and \<open>getHashedSetIndex\<close>.
  \<^item> \<open>gatherResults\<close>: what the function returned by \<^verbatim>\<open>o.gatherResults\<close> yields in the
    raw listing once the listing goroutines have run, and \<open>listMerged\<close>: the error of
    \<open>listMerged\<close> in that run; \<open>gatherSaved\<close>: what the function returned by
    \<^verbatim>\<open>o.gatherResults\<close> yields in \<open>listAndSave\<close>. These are results of concurrent
    producers and consumers; the model takes them as given and keeps the sequential code
    around them.
  \<^item> \<open>maxChanSize\<close>: the largest capacity with which \<^verbatim>\<open>make(chan metaCacheEntry, n)\<close>
    makes a channel; it depends on the size of an entry and on the platform. A negative or
    a larger capacity panics (\<^verbatim>\<open>makechan: size out of range\<close>).
\<close>

record listing_env =
  checkListObjsArgs :: "string \<Rightarrow> string \<Rightarrow> string \<Rightarrow> error option"
  HasPrefix :: "string \<Rightarrow> string \<Rightarrow> bool"
  parseMarker :: "listPathOptions \<Rightarrow> listPathOptions"
  baseDirFromPrefix :: "string \<Rightarrow> string"
  isReservedOrInvalidBucket :: "string \<Rightarrow> bool \<Rightarrow> bool"
  SetFilter :: "listPathOptions \<Rightarrow> listPathOptions"
  pathJoin :: "string \<Rightarrow> string \<Rightarrow> string"
  restClientFromHash :: "string \<Rightarrow> nat option"
  findCache :: "string \<Rightarrow> listPathOptions \<Rightarrow> metacache"
  GetMetacacheListing :: "nat \<Rightarrow> listPathOptions \<Rightarrow> error + metacache"
  mustGetUUID :: "nat \<Rightarrow> string"
  streamMetadataParts :: "erasureObjects \<Rightarrow> listPathOptions \<Rightarrow> metaCacheEntriesSorted \<times> error option"
  getAvailablePoolIdx :: "string \<Rightarrow> string \<Rightarrow> int \<Rightarrow> int"
  getHashedSetIndex :: "erasureSets \<Rightarrow> string \<Rightarrow> int"
  gatherResults :: "listPathOptions \<Rightarrow> metaCacheEntriesSorted \<times> error option"
  listMerged :: "listPathOptions \<Rightarrow> error option"
  gatherSaved :: "listPathOptions \<Rightarrow> metaCacheEntriesSorted \<times> error option"
  maxChanSize :: int

text \<open>
  What a call does besides returning, in order: consulting the metacache manager (local
  or on the peer), starting the goroutine that refreshes the handout time, streaming a
  saved cache from a set, saving a cache on a set, the goroutine that marks the cache as no
  longer used on the peer, the log line of a failed resume, and scanning the sets
  (\<open>listMerged\<close>).
\<close>

datatype event =
    EvFindCache string
  | EvGetMetacacheListing nat
  | EvHandoutTicker string
  | EvStreamMetadataParts erasureObjects
  | EvSaveMetaCacheStream erasureObjects
  | EvDropCache
  | EvLogResumeFailed error
  | EvListMerged

text \<open>
  The state a call threads through: the options behind the pointer \<^verbatim>\<open>o\<close>, the events
  so far, and the number of identifiers drawn.
\<close>

record listing_state =
  opts :: listPathOptions
  events :: "event list"
  uuids :: nat

text \<open>
  A part of \<open>listPath\<close> either returns to the caller (entries and error), goes on to
  the next part, or panics.
\<close>

datatype step =
    Return metaCacheEntriesSorted "error option" listing_state
  | Continue listing_state
  | Panic string listing_state

text \<open>
  Lines 61 to 84 of \<open>listPath\<close> (and, word for word, lines 269 to 292 of the
  single-drive \<open>listPath\<close>): the checks that return before the options are touched.
  \<^verbatim>\<open>strings.HasPrefix(o.Prefix, SlashSeparator)\<close> is \<open>prefix\<close> on lists.
\<close>

definition listPath_checks :: "listing_env \<Rightarrow> listing_state \<Rightarrow> step" where
  "listPath_checks env st =
     (let opt = opts st in
      case checkListObjsArgs env (Bucket opt) (Prefix opt) (Marker opt) of
        Some err \<Rightarrow> Return no_entries (Some err) st
      | None \<Rightarrow>
          if Marker opt \<noteq> [] \<and> Prefix opt \<noteq> [] \<and> \<not> HasPrefix env (Marker opt) (Prefix opt)
          then Return no_entries (Some EOF) st
          else if Limit opt = 0 then Return no_entries (Some EOF) st
          else if prefix SlashSeparator (Prefix opt) then Return no_entries (Some EOF) st
          else Continue st)"

text \<open>Lines 86 to 104: the options are normalised.\<close>

definition listPath_normalise :: "listing_env \<Rightarrow> listPathOptions \<Rightarrow> listPathOptions" where
  "listPath_normalise env opt0 =
     (let opt1 = opt0\<lparr>IncludeDirectories := (Separator opt0 = slashSeparator)\<rparr>;
          opt2 = (if (Separator opt1 = slashSeparator \<or> Separator opt1 = []) \<and> \<not> Recursive opt1
                  then opt1\<lparr>Recursive := (Separator opt1 \<noteq> slashSeparator),
                           Separator := slashSeparator\<rparr>
                  else opt1\<lparr>Recursive := True\<rparr>);
          opt3 = parseMarker env opt2;
          opt4 = opt3\<lparr>BaseDir := baseDirFromPrefix env (Prefix opt3)\<rparr>;
          opt5 = opt4\<lparr>Transient := (Transient opt4 \<or> isReservedOrInvalidBucket env (Bucket opt4) False)\<rparr>;
          opt6 = SetFilter env opt5
      in if Transient opt6 then opt6\<lparr>Create := False\<rparr> else opt6)"

text \<open>
  What follows an answer \<^verbatim>\<open>c\<close> of the metacache manager that came without error
  (lines 137 to 164, and lines 323 to 347 of the single-drive function).
\<close>

definition listPath_cacheAnswer :: "metacache \<Rightarrow> listing_state \<Rightarrow> step" where
  "listPath_cacheAnswer c st =
     (if fileNotFound c then Return no_entries (Some EOF) st
      else if status c = scanStateError \<or> status c = scanStateNone
      then Continue (st\<lparr>opts := (opts st)\<lparr>ID := [], Create := False\<rparr>\<rparr>)
      else Continue (st\<lparr>opts := (opts st)\<lparr>ID := id' c\<rparr>,
                       events := events st @ [EvHandoutTicker (id' c)]\<rparr>))"

text \<open>Lines 112 to 166: the metacache manager is asked, locally or on the peer.\<close>

definition listPath_lookup :: "listing_env \<Rightarrow> listing_state \<Rightarrow> step" where
  "listPath_lookup env st =
     (let opt = opts st in
      if ID opt \<noteq> [] \<and> \<not> Transient opt then
        (case restClientFromHash env (pathJoin env (Bucket opt) (Prefix opt)) of
           None \<Rightarrow>
             listPath_cacheAnswer (findCache env (Bucket opt) opt)
               (st\<lparr>events := events st @ [EvFindCache (Bucket opt)]\<rparr>)
         | Some rpc \<Rightarrow>
             (let st1 = st\<lparr>events := events st @ [EvGetMetacacheListing rpc]\<rparr> in
              case GetMetacacheListing env rpc opt of
                Inl err \<Rightarrow>
                  if err = ctxCanceled then Return no_entries (Some EOF) st1
                  else Continue (st1\<lparr>opts := opt\<lparr>Transient := True, Create := False,
                                                   ID := mustGetUUID env (uuids st1)\<rparr>,
                                     uuids := Suc (uuids st1)\<rparr>)
              | Inr c \<Rightarrow> listPath_cacheAnswer c st1))
      else Continue st)"

text \<open>
  \<open>listAndSave\<close> of the pools. When no pool has room the options are made transient
  and \<open>errDiskFull\<close> is returned. Otherwise the set that saves the cache is looked up
  (either index expression panics out of range), the channels are made
  (\<^verbatim>\<open>make(chan metaCacheEntry, o.Limit)\<close> panics on a capacity that is negative or too
  large; the two other channels have a constant capacity), the goroutines that save and
  list are started, and the gathered results are returned.
\<close>

definition listAndSave :: "listing_env \<Rightarrow> erasureServerPools \<Rightarrow> listing_state \<Rightarrow> step" where
  "listAndSave env z st =
     (let opt = opts st;
          p = getAvailablePoolIdx env minioMetaBucket (ID opt) (10 * 2 ^ 20)
      in if p < 0 then
           Return no_entries (Some errDiskFull)
             (st\<lparr>opts := opt\<lparr>pool := 0, Create := False, ID := [], Transient := True\<rparr>\<rparr>)
         else if p \<ge> int (length (serverPools z)) then
           Panic ''index out of range'' (st\<lparr>opts := opt\<lparr>pool := p\<rparr>\<rparr>)
         else
           (let s = getHashedSetIndex env (serverPools z ! nat p) (ID opt);
                opt' = opt\<lparr>pool := p, set' := s\<rparr>
            in if s < 0 \<or> s \<ge> int (length (sets (serverPools z ! nat p))) then
                 Panic ''index out of range'' (st\<lparr>opts := opt'\<rparr>)
               else if Limit opt' < 0 \<or> Limit opt' > maxChanSize env then
                 Panic ''makechan: size out of range'' (st\<lparr>opts := opt'\<rparr>)
               else
                 (case gatherSaved env opt' of
                    (entries, err) \<Rightarrow>
                      Return entries err
                        (st\<lparr>opts := opt',
                            events := events st
                              @ [EvSaveMetaCacheStream (sets (serverPools z ! nat p) ! nat s),
                                 EvListMerged]\<rparr>))))"

text \<open>
  Lines 190 to 218: after a resume that did not return. An expected error is returned;
  otherwise the cache is dropped, the identifier cleared and the error logged.
\<close>

definition listPath_abandon ::
  "metaCacheEntriesSorted \<Rightarrow> error option \<Rightarrow> listing_state \<Rightarrow> step" where
  "listPath_abandon entries err st =
     (if IsErr err [None, Some ctxCanceled, Some ctxDeadlineExceeded, Some EOF]
      then Return entries err st
      else Continue (st\<lparr>opts := (opts st)\<lparr>ID := []\<rparr>,
                       events := events st @ [EvDropCache]
                         @ (case err of None \<Rightarrow> [] | Some e \<Rightarrow> [EvLogResumeFailed e])\<rparr>))"

text \<open>
  Lines 168 to 219: with a list identifier the cache is created (\<open>listAndSave\<close>) or
  streamed from the set the marker names. The condition
  \<^verbatim>\<open>o.pool < len(z.serverPools) && o.set < len(z.serverPools[o.pool].sets)\<close> indexes
  \<^verbatim>\<open>z.serverPools\<close> once its first half holds, and the branch indexes \<^verbatim>\<open>sets\<close>; a
  negative index panics.
\<close>

definition listPath_resume :: "listing_env \<Rightarrow> erasureServerPools \<Rightarrow> listing_state \<Rightarrow> step" where
  "listPath_resume env z st =
     (let opt = opts st in
      if ID opt \<noteq> [] \<and> \<not> Transient opt then
        (if Create opt then
           (case listAndSave env z st of
              Return entries err st1 \<Rightarrow>
                if err = None \<or> err = Some EOF then Return entries err st1
                else listPath_abandon (truncate' 0 entries) err st1
            | other \<Rightarrow> other)
         else if pool opt < int (length (serverPools z)) then
           (if pool opt < 0 then Panic ''index out of range'' st
            else if set' opt < int (length (sets (serverPools z ! nat (pool opt)))) then
              (if set' opt < 0 then Panic ''index out of range'' st
               else
                 (let saver = sets (serverPools z ! nat (pool opt)) ! nat (set' opt);
                      st1 = st\<lparr>events := events st @ [EvStreamMetadataParts saver]\<rparr>
                  in case streamMetadataParts env saver opt of
                       (entries, err) \<Rightarrow>
                         if err = None then Return (entries\<lparr>reuse := True\<rparr>) None st1
                         else listPath_abandon (entries\<lparr>reuse := True\<rparr>) err st1))
            else
              listPath_abandon no_entries (Some errInvalidPoolSet)
                (st\<lparr>opts := opt\<lparr>pool := 0, set' := 0\<rparr>\<rparr>))
         else
           listPath_abandon no_entries (Some errInvalidPoolSet)
             (st\<lparr>opts := opt\<lparr>pool := 0, set' := 0\<rparr>\<rparr>))
      else Continue st)"

text \<open>
  Lines 221 to 259, the raw listing. \<^verbatim>\<open>make(chan metaCacheEntry, o.Limit)\<close> panics on a
  capacity that is negative or too large. The goroutine lists with a copy of the options in
  which
  \<^verbatim>\<open>StopDiskAtLimit\<close> is set; \<open>listErr\<close> is its error once it has been waited for.
\<close>

definition listPath_rawList :: "listing_env \<Rightarrow> listing_state \<Rightarrow> step" where
  "listPath_rawList env st =
     (let opt = opts st in
      if Limit opt < 0 \<or> Limit opt > maxChanSize env
      then Panic ''makechan: size out of range'' st
      else
        (let st1 = st\<lparr>events := events st @ [EvListMerged]\<rparr>;
             listErr = listMerged env (opt\<lparr>StopDiskAtLimit := True\<rparr>)
         in case gatherResults env opt of
              (entries, err) \<Rightarrow>
                if listErr \<noteq> None \<and> listErr \<noteq> Some ctxCanceled then Return entries listErr st1
                else
                  (let entries1 = entries\<lparr>reuse := True\<rparr>;
                       truncated = (len entries1 > Limit opt \<or> err = None);
                       entries2 = truncate' (Limit opt) entries1;
                       (entries3, st2) =
                         (if \<not> Transient opt \<and> truncated then
                            (if ID opt = []
                             then (entries2\<lparr>listID := mustGetUUID env (uuids st1)\<rparr>,
                                   st1\<lparr>uuids := Suc (uuids st1)\<rparr>)
                             else (entries2\<lparr>listID := ID opt\<rparr>, st1))
                          else (entries2, st1))
                   in if \<not> truncated then Return entries3 (Some EOF) st2
                      else Return entries3 None st2)))"

text \<open>
  The parts of \<open>listPath\<close> before the raw listing, in sequence, and \<open>listPath\<close> of
  \<^verbatim>\<open>erasureServerPools\<close>. The caller sees the returned entries and error and, through
  the pointer, the options of the final state.
\<close>

definition listPath_beforeResume :: "listing_env \<Rightarrow> listPathOptions \<Rightarrow> step" where
  "listPath_beforeResume env opt =
     (case listPath_checks env \<lparr>opts = opt, events = [], uuids = 0\<rparr> of
        Continue st0 \<Rightarrow> listPath_lookup env (st0\<lparr>opts := listPath_normalise env (opts st0)\<rparr>)
      | other \<Rightarrow> other)"

definition listPath_beforeRawList :: "listing_env \<Rightarrow> erasureServerPools \<Rightarrow> listPathOptions \<Rightarrow> step" where
  "listPath_beforeRawList env z opt =
     (case listPath_beforeResume env opt of
        Continue st1 \<Rightarrow> listPath_resume env z st1
      | other \<Rightarrow> other)"

definition listPath :: "listing_env \<Rightarrow> erasureServerPools \<Rightarrow> listPathOptions \<Rightarrow> step" where
  "listPath env z opt =
     (case listPath_beforeRawList env z opt of
        Continue st \<Rightarrow> listPath_rawList env st
      | other \<Rightarrow> other)"

text \<open>
  The single-drive variant (\<^verbatim>\<open>erasureSingle\<close>). Its \<open>listAndSave\<close> saves on the one
  set there is; its \<open>listPath\<close> asks the local manager only, resumes in the same branch,
  and lists raw with a copy of the options whose \<^verbatim>\<open>Limit\<close> is 0.
\<close>

definition listAndSave_single :: "listing_env \<Rightarrow> erasureObjects \<Rightarrow> listing_state \<Rightarrow> step" where
  "listAndSave_single env es st =
     (let opt' = (opts st)\<lparr>pool := 0, set' := 0\<rparr> in
      if Limit opt' < 0 \<or> Limit opt' > maxChanSize env then
        Panic ''makechan: size out of range'' (st\<lparr>opts := opt'\<rparr>)
      else
        (case gatherSaved env opt' of
           (entries, err) \<Rightarrow>
             Return entries err
               (st\<lparr>opts := opt', events := events st @ [EvSaveMetaCacheStream es, EvListMerged]\<rparr>)))"

definition listPath_abandon_single ::
  "metaCacheEntriesSorted \<Rightarrow> error option \<Rightarrow> listing_state \<Rightarrow> step" where
  "listPath_abandon_single entries err st =
     (if IsErr err [None, Some ctxCanceled, Some ctxDeadlineExceeded, Some EOF]
      then Return entries err st
      else Continue (st\<lparr>opts := (opts st)\<lparr>ID := []\<rparr>,
                       events := events st
                         @ (case err of None \<Rightarrow> [] | Some e \<Rightarrow> [EvLogResumeFailed e])\<rparr>))"

definition listPath_resume_single :: "listing_env \<Rightarrow> erasureObjects \<Rightarrow> listing_state \<Rightarrow> step" where
  "listPath_resume_single env es st =
     (let opt = opts st in
      if ID opt \<noteq> [] \<and> \<not> Transient opt then
        (case listPath_cacheAnswer (findCache env (Bucket opt) opt)
                (st\<lparr>events := events st @ [EvFindCache (Bucket opt)]\<rparr>) of
           Continue st1 \<Rightarrow>
             (if Create (opts st1) then
                (case listAndSave_single env es st1 of
                   Return entries err st2 \<Rightarrow>
                     if err = None \<or> err = Some EOF then Return entries err st2
                     else listPath_abandon_single (truncate' 0 entries) err st2
                 | other \<Rightarrow> other)
              else
                (let st2 = st1\<lparr>events := events st1 @ [EvStreamMetadataParts es]\<rparr> in
                 case streamMetadataParts env es (opts st1) of
                   (entries, err) \<Rightarrow>
                     if err = None then Return (entries\<lparr>reuse := True\<rparr>) None st2
                     else listPath_abandon_single (entries\<lparr>reuse := True\<rparr>) err st2))
         | other \<Rightarrow> other)
      else Continue st)"

definition listPath_rawList_single :: "listing_env \<Rightarrow> listing_state \<Rightarrow> step" where
  "listPath_rawList_single env st =
     (let opt = opts st in
      if Limit opt < 0 \<or> Limit opt > maxChanSize env
      then Panic ''makechan: size out of range'' st
      else
        (let st1 = st\<lparr>events := events st @ [EvListMerged]\<rparr>;
             listErr = listMerged env (opt\<lparr>Limit := 0\<rparr>)
         in case gatherResults env opt of
              (entries, err) \<Rightarrow>
                if listErr \<noteq> None \<and> listErr \<noteq> Some ctxCanceled then Return entries listErr st1
                else
                  (let entries1 = entries\<lparr>reuse := True\<rparr>;
                       truncated = (len entries1 > Limit opt \<or> err = None);
                       entries2 = truncate' (Limit opt) entries1;
                       (entries3, st2) =
                         (if \<not> Transient opt \<and> truncated then
                            (if ID opt = []
                             then (entries2\<lparr>listID := mustGetUUID env (uuids st1)\<rparr>,
                                   st1\<lparr>uuids := Suc (uuids st1)\<rparr>)
                             else (entries2\<lparr>listID := ID opt\<rparr>, st1))
                          else (entries2, st1))
                   in if \<not> truncated then Return entries3 (Some EOF) st2
                      else Return entries3 None st2)))"

definition listPath_single :: "listing_env \<Rightarrow> erasureObjects \<Rightarrow> listPathOptions \<Rightarrow> step" where
  "listPath_single env es opt =
     (case listPath_checks env \<lparr>opts = opt, events = [], uuids = 0\<rparr> of
        Continue st0 \<Rightarrow>
          (case listPath_resume_single env es (st0\<lparr>opts := listPath_normalise env (opts st0)\<rparr>) of
             Continue st1 \<Rightarrow> listPath_rawList_single env st1
           | other \<Rightarrow> other)
      | other \<Rightarrow> other)"

subsection \<open>Example inputs\<close>

text \<open>
  Concrete inputs for the examples below: a cold listing of bucket \<^verbatim>\<open>photos\<close> with a
  limit of two entries, an environment in which every collaborator answers without error
  (and a channel of entries may have up to \<open>2 ^ 48 div 64\<close> places), and a topology of one
  pool with two sets.
\<close>

definition example_opts :: listPathOptions where
  "example_opts =
     \<lparr>ID = [], Bucket = ''photos'', BaseDir = [], listPathOptions.Prefix = [], Marker = [],
      Limit = 2, Separator = ''/'', Recursive = False, IncludeDirectories = False,
      Transient = False, Create = False, StopDiskAtLimit = False, pool = 0, set' = 0,
      Lifecycle = None, Retention = None, Replication_Config = None\<rparr>"

definition example_entries :: "metaCacheEntry list" where
  "example_entries =
     [\<lparr>name = ''a.jpg'', metadata = ''xl-a''\<rparr>, \<lparr>name = ''b.jpg'', metadata = ''xl-b''\<rparr>,
      \<lparr>name = ''c.jpg'', metadata = ''xl-c''\<rparr>]"

definition example_env :: listing_env where
  "example_env =
     \<lparr>checkListObjsArgs = (\<lambda>bucket prefix marker.
         if bucket = [] then Some (OtherError ''BucketNameInvalid'') else None),
      HasPrefix = (\<lambda>s p. prefix p s),
      parseMarker = (\<lambda>opt. if Marker opt = ''b.jpg[minio_cache:v2,id:c1,p:3,s:0]''
                            then opt\<lparr>Marker := ''b.jpg'', ID := ''c1'', pool := 3, set' := 0\<rparr>
                            else opt),
      baseDirFromPrefix = (\<lambda>p. []),
      isReservedOrInvalidBucket = (\<lambda>bucket strict. False),
      SetFilter = (\<lambda>opt. opt),
      pathJoin = (\<lambda>a b. a @ ''/'' @ b),
      restClientFromHash = (\<lambda>h. None),
      findCache = (\<lambda>bucket opt. \<lparr>id' = ID opt, status = scanStateSuccess, fileNotFound = False\<rparr>),
      GetMetacacheListing = (\<lambda>rpc opt. Inl ctxDeadlineExceeded),
      mustGetUUID = (\<lambda>n. ''uuid-'' @ replicate n (CHR ''i'')),
      streamMetadataParts = (\<lambda>s opt. (no_entries, Some EOF)),
      getAvailablePoolIdx = (\<lambda>bucket object size. -1),
      getHashedSetIndex = (\<lambda>p object. 0),
      gatherResults = (\<lambda>opt. (\<lparr>o' = take (nat (Limit opt + 1)) example_entries, listID = [],
                                 reuse = False\<rparr>, None)),
      listMerged = (\<lambda>opt. None),
      gatherSaved = (\<lambda>opt. (\<lparr>o' = take (nat (Limit opt)) example_entries, listID = [],
                               reuse = False\<rparr>, None)),
      maxChanSize = 2 ^ 48 div 64\<rparr>"

definition example_pools :: erasureServerPools where
  "example_pools = \<lparr>serverPools = [\<lparr>sets = [ErasureObjects 0, ErasureObjects 1]\<rparr>]\<rparr>"

text \<open>
  Collaborators of the bucket-action filter for the examples: an entry decodes to its
  name unless its metadata is empty, and the lifecycle rule expires the objects whose
  name starts with \<^verbatim>\<open>old\<close>.
\<close>

definition example_deps :: "(string, string, unit) bucket_deps" where
  "example_deps =
     \<lparr>fileInfo = (\<lambda>obj bucket. if metadata obj = [] then Inl (OtherError ''no metadata'')
                               else Inr (name obj)),
      versioningGet = (\<lambda>bucket. None),
      Versioned = (\<lambda>vcfg n. False),
      ToObjectInfo = (\<lambda>fi bucket n versioned. fi),
      evalActionFromLifecycle = (\<lambda>lc retention objInfo restored.
         if prefix ''old'' objInfo then DeleteAction else NoneAction)\<rparr>"

text \<open>Collaborators of the conflict resolver for the examples.\<close>

definition example_isDir :: "metaCacheEntry \<Rightarrow> bool" where
  "example_isDir e = (metadata e = [] \<and> suffix ''/'' (name e))"

definition example_xlmeta :: "metaCacheEntry \<Rightarrow> error + xlMetaV2" where
  "example_xlmeta e =
     (if metadata e = ''one version, modtime 100''
      then Inr \<lparr>versions = [\<lparr>ModTime = 100, VersionID = ''v1''\<rparr>]\<rparr>
      else if metadata e = ''one version, modtime 200''
      then Inr \<lparr>versions = [\<lparr>ModTime = 200, VersionID = ''v2''\<rparr>]\<rparr>
      else Inl (OtherError ''file not found''))"

definition example_latestModtime :: "xlMetaV2 \<Rightarrow> int" where
  "example_latestModtime m = (case versions m of [] \<Rightarrow> 0 | v # vs \<Rightarrow> ModTime v)"

section \<open>Properties of the endpoint layout planner\<close>

subsection \<open>The choice of the set size\<close>

lemma gcd_loop_gcd: "gcd_loop x y = gcd x y"
proof (induction x y rule: gcd_loop.induct)
  case (1 x y)
  show ?case
  proof (cases "y = 0")
    case True
    then show ?thesis by (simp add: gcd_loop.simps)
  next
    case False
    with 1 have "gcd_loop x y = gcd y (x mod y)" by (simp add: gcd_loop.simps)
    then show ?thesis by (metis gcd.commute gcd_red_nat)
  qed
qed

lemma foldl_gcd_loop_dvd: "foldl gcd_loop t ts dvd t \<and> (\<forall>x\<in>set ts. foldl gcd_loop t ts dvd x)"
proof (induction ts arbitrary: t)
  case Nil
  then show ?case by simp
next
  case (Cons a ts)
  have "foldl gcd_loop (gcd t a) ts dvd gcd t a" using Cons.IH by blast
  then have "foldl gcd_loop (gcd t a) ts dvd t" "foldl gcd_loop (gcd t a) ts dvd a"
    by (meson dvd_trans gcd_dvd1 gcd_dvd2)+
  with Cons.IH [of "gcd t a"] show ?case by (simp add: gcd_loop_gcd)
qed

lemma getDivisibleSize_dvd:
  "getDivisibleSize totalSizes = Inr G \<Longrightarrow> x \<in> set totalSizes \<Longrightarrow> G dvd x"
  using foldl_gcd_loop_dvd by (auto simp: getDivisibleSize_def split: list.splits)

lemma commonSetDriveCount_loop_last:
  "cnts \<noteq> [] \<Longrightarrow> sorted cnts \<Longrightarrow> \<forall>c\<in>set cnts. 0 < c \<and> D mod c = 0 \<and> D div c \<le> prevD
     \<Longrightarrow> commonSetDriveCount_loop D cnts prevD s = Inr (last cnts)"
proof (induction cnts arbitrary: prevD s)
  case Nil
  then show ?case by simp
next
  case (Cons cnt cnts)
  show ?case
  proof (cases "cnts = []")
    case True
    with Cons.prems show ?thesis by simp
  next
    case False
    have le: "\<forall>c\<in>set cnts. cnt \<le> c" using Cons.prems(2) by simp
    have pos: "0 < cnt" using Cons.prems(3) by simp
    have "\<forall>c\<in>set cnts. 0 < c \<and> D mod c = 0 \<and> D div c \<le> D div cnt"
      using Cons.prems(3) le pos by (simp add: div_le_mono2)
    moreover have "sorted cnts" using Cons.prems(2) by simp
    ultimately have "commonSetDriveCount_loop D cnts (D div cnt) cnt = Inr (last cnts)"
      using Cons.IH False by blast
    with Cons.prems(3) False show ?thesis by simp
  qed
qed

lemma commonSetDriveCount_last:
  assumes ne: "setCounts \<noteq> []" and srt: "sorted setCounts"
    and dv: "\<forall>c\<in>set setCounts. c dvd G" and G: "0 < G"
  shows "commonSetDriveCount G setCounts = Inr (last setCounts)"
proof -
  have pos: "\<forall>c\<in>set setCounts. 0 < c" using dv G by (metis dvd_pos_nat)
  have leG: "\<forall>c\<in>set setCounts. c \<le> G" using dv G by (simp add: dvd_imp_le)
  have hd_in: "hd setCounts \<in> set setCounts" and last_in: "last setCounts \<in> set setCounts"
    using ne by simp_all
  have hd_le: "\<forall>c\<in>set setCounts. hd setCounts \<le> c"
    using ne srt by (cases setCounts) auto
  have "\<forall>c\<in>set setCounts. 0 < c \<and> G mod c = 0 \<and> G div c \<le> G div hd setCounts"
    using pos dv hd_le hd_in by (simp add: div_le_mono2 mod_eq_0_iff_dvd)
  then have "commonSetDriveCount_loop G setCounts (G div hd setCounts) 0 = Inr (last setCounts)"
    using commonSetDriveCount_loop_last ne srt by blast
  moreover have "\<not> G < last setCounts" using leG last_in by (simp add: not_less)
  moreover have "hd setCounts \<noteq> 0" using pos hd_in by auto
  ultimately show ?thesis using ne by (simp add: commonSetDriveCount_def)
qed

text \<open>
  On a non-empty ascending list of divisors of a positive \<open>G\<close>, \<open>commonSetDriveCount\<close>
  returns the largest one, which has the least quotient.
\<close>

lemma commonSetDriveCount_largest:
  assumes ne: "setCounts \<noteq> []" and srt: "sorted setCounts"
    and dv: "\<forall>c\<in>set setCounts. c dvd G" and G: "0 < G"
  shows "\<exists>s. commonSetDriveCount G setCounts = Inr s \<and> s \<in> set setCounts \<and> s dvd G
           \<and> s = Max (set setCounts)
           \<and> (\<forall>c\<in>set setCounts. G div s \<le> G div c \<and> (G div c = G div s \<longrightarrow> c \<le> s))"
proof -
  let ?s = "last setCounts"
  have in_s: "?s \<in> set setCounts" using ne by simp
  have ub: "\<forall>c\<in>set setCounts. c \<le> ?s"
  proof
    fix c assume "c \<in> set setCounts"
    then obtain i where i: "i < length setCounts" "setCounts ! i = c" by (auto simp: in_set_conv_nth)
    then have "setCounts ! i \<le> setCounts ! (length setCounts - 1)"
      using srt by (intro sorted_nth_mono) auto
    then show "c \<le> last setCounts" using i ne by (simp add: last_conv_nth)
  qed
  have pos: "0 < ?s" using dv G in_s by (metis dvd_pos_nat)
  have mx: "?s = Max (set setCounts)" using in_s ub by (intro Max_eqI [symmetric]) auto
  have "\<forall>c\<in>set setCounts. G div ?s \<le> G div c"
  proof
    fix c assume c: "c \<in> set setCounts"
    then have "0 < c" using dv G by (metis dvd_pos_nat)
    then show "G div ?s \<le> G div c" using ub c by (simp add: div_le_mono2)
  qed
  then show ?thesis
    using commonSetDriveCount_last [OF assms] in_s dv ub mx by auto
qed

subsection \<open>The result of a successful run\<close>

lemma possibleSetCountsWithSymmetry_loop_subset:
  "possibleSetCountsWithSymmetry_loop xs aps acc = Inr r \<Longrightarrow> set r \<subseteq> set acc \<union> set xs"
proof (induction xs arbitrary: acc)
  case Nil
  then show ?case by simp
next
  case (Cons ss rest)
  then obtain symmetry where
    "possibleSetCountsWithSymmetry_loop rest aps
       (if ss \<notin> set acc \<and> (symmetry \<or> aps = None) then acc @ [ss] else acc) = Inr r"
    by (auto split: sum.splits)
  from Cons.IH [OF this] show ?case by (auto split: if_splits)
qed

lemma possibleSetCountsWithSymmetry_subset:
  "possibleSetCountsWithSymmetry setCounts aps = Inr r \<Longrightarrow> sorted r \<and> set r \<subseteq> set setCounts"
  using possibleSetCountsWithSymmetry_loop_subset [of setCounts aps "[]"]
  by (auto simp: possibleSetCountsWithSymmetry_def split: sum.splits)

lemma possibleSetCounts_dvd:
  assumes "c \<in> set (possibleSetCounts G)"
  shows "c dvd G \<and> 2 \<le> c \<and> c \<le> 16"
proof -
  from assms have "c \<in> set setSizes" and "G mod c = 0"
    unfolding possibleSetCounts_def by (simp_all only: set_filter mem_Collect_eq)
  then show ?thesis by (auto simp: setSizes_def)
qed

lemma isValidSetSize_range: "isValidSetSize S = (2 \<le> S \<and> S \<le> 16)"
  by (simp add: isValidSetSize_def setSizes_def)

lemma getSetIndexes_success:
  assumes "getSetIndexes args totalSizes custom aps g = (Inr idx, g')"
  shows "\<exists>S. 2 \<le> S \<and> S \<le> 16 \<and> (\<forall>t\<in>set totalSizes. S dvd t)
           \<and> idx = map (\<lambda>t. replicate (t div S) S) totalSizes"
proof -
  from assms have ne: "totalSizes \<noteq> []" and "args \<noteq> []"
    by (auto simp: getSetIndexes_def split: if_splits)
  from assms have ge2: "\<forall>t\<in>set totalSizes. 2 \<le> t"
    by (auto simp: getSetIndexes_def setSizes_def list_ex_iff not_less split: if_splits)
  obtain G where G: "getDivisibleSize totalSizes = Inr G"
    using ne by (cases totalSizes) (simp_all add: getDivisibleSize_def)
  have Gdvd: "\<forall>t\<in>set totalSizes. G dvd t" using getDivisibleSize_dvd [OF G] by blast
  have Gpos: "0 < G"
  proof (rule ccontr)
    assume "\<not> 0 < G"
    then have "G = 0" by simp
    moreover have "hd totalSizes \<in> set totalSizes" using ne by simp
    ultimately have "hd totalSizes = 0" using Gdvd by auto
    then show False using ge2 \<open>hd totalSizes \<in> set totalSizes\<close> by force
  qed
  have "\<exists>S. S dvd G \<and> fillSetIndexes totalSizes S = Inr idx"
  proof (cases "custom > 0")
    case True
    with assms G have "custom \<in> set (possibleSetCounts G)"
      and "fillSetIndexes totalSizes custom = Inr idx"
      by (auto simp: getSetIndexes_def split: if_splits)
    then show ?thesis using possibleSetCounts_dvd by blast
  next
    case False
    with assms G obtain setCounts S where sc:
      "possibleSetCountsWithSymmetry (possibleSetCounts G) aps = Inr setCounts"
      "setCounts \<noteq> []" "commonSetDriveCount G setCounts = Inr S"
      "fillSetIndexes totalSizes S = Inr idx"
      by (auto simp: getSetIndexes_def split: if_splits sum.splits)
    from possibleSetCountsWithSymmetry_subset [OF sc(1)]
    have srt: "sorted setCounts" and sub: "set setCounts \<subseteq> set (possibleSetCounts G)" by auto
    have dv: "\<forall>c\<in>set setCounts. c dvd G" using sub possibleSetCounts_dvd by blast
    have "commonSetDriveCount G setCounts = Inr (last setCounts)"
      using commonSetDriveCount_last [OF sc(2) srt dv Gpos] .
    with sc(3) have "S = last setCounts" by simp
    then have "S \<in> set setCounts" using sc(2) by simp
    with dv sc(4) show ?thesis by blast
  qed
  then obtain S where S: "S dvd G" "fillSetIndexes totalSizes S = Inr idx" by blast
  from S(2) have "isValidSetSize S" "idx = map (\<lambda>t. replicate (t div S) S) totalSizes"
    by (auto simp: fillSetIndexes_def split: if_splits)
  moreover have "\<forall>t\<in>set totalSizes. S dvd t" using S(1) Gdvd by (meson dvd_trans)
  ultimately show ?thesis by (auto simp: isValidSetSize_range)
qed

lemma Get_inner_replicate:
  "k + m * S \<le> length eps \<Longrightarrow>
   \<exists>new. Get_inner eps spare (replicate m S) k chunks = Inr (k + m * S, chunks @ new)
      \<and> concat new = take (m * S) (drop k eps) \<and> (\<forall>x\<in>set new. length x = S) \<and> length new = m"
proof (induction m arbitrary: k chunks)
  case 0
  then show ?case by simp
next
  case (Suc m)
  let ?c = "take S (drop k eps)"
  have within: "take S (drop k (eps @ spare)) = ?c" using Suc.prems by simp
  have len: "length ?c = S" using Suc.prems by simp
  have "(S + k) + m * S \<le> length eps" using Suc.prems by simp
  from Suc.IH [OF this, of "chunks @ [?c]"] obtain new where new:
    "Get_inner eps spare (replicate m S) (S + k) (chunks @ [?c])
       = Inr (S + k + m * S, (chunks @ [?c]) @ new)"
    "concat new = take (m * S) (drop (S + k) eps)" "\<forall>x\<in>set new. length x = S" "length new = m"
    by blast
  have "concat (?c # new) = take (Suc m * S) (drop k eps)"
    using new(2) by (simp add: take_add add.commute)
  moreover have "Get_inner eps spare (replicate (Suc m) S) k chunks
      = Inr (k + Suc m * S, chunks @ (?c # new))"
    using new(1) Suc.prems within by (simp add: add.commute add.left_commute)
  ultimately show ?case using new(3,4) len
    by (intro exI [of _ "?c # new"]) simp
qed

lemma Get_outer_chunks:
  "0 < S \<Longrightarrow> \<forall>t\<in>set totals. S dvd t \<Longrightarrow> k + sum_list totals \<le> length eps \<Longrightarrow>
   \<exists>new. Get_outer eps spare (map (\<lambda>t. replicate (t div S) S) totals) k chunks
            = Inr (k + sum_list totals, chunks @ new)
      \<and> concat new = take (sum_list totals) (drop k eps) \<and> (\<forall>x\<in>set new. length x = S)
      \<and> length new = sum_list (map (\<lambda>t. t div S) totals)"
proof (induction totals arbitrary: k chunks)
  case Nil
  then show ?case by simp
next
  case (Cons t totals)
  have tS: "t div S * S = t" using Cons.prems(2) by simp
  have "k + t div S * S \<le> length eps" using Cons.prems(3) tS by simp
  from Get_inner_replicate [OF this, of spare chunks] obtain n1 where n1:
    "Get_inner eps spare (replicate (t div S) S) k chunks = Inr (k + t, chunks @ n1)"
    "concat n1 = take t (drop k eps)" "\<forall>x\<in>set n1. length x = S" "length n1 = t div S"
    using tS by auto
  have "(k + t) + sum_list totals \<le> length eps" using Cons.prems(3) by simp
  from Cons.IH [OF Cons.prems(1) _ this, of "chunks @ n1"] Cons.prems(2) obtain n2 where n2:
    "Get_outer eps spare (map (\<lambda>t. replicate (t div S) S) totals) (k + t) (chunks @ n1)
       = Inr (k + t + sum_list totals, (chunks @ n1) @ n2)"
    "concat n2 = take (sum_list totals) (drop (k + t) eps)" "\<forall>x\<in>set n2. length x = S"
    "length n2 = sum_list (map (\<lambda>t. t div S) totals)"
    by auto
  have "concat (n1 @ n2) = take (sum_list (t # totals)) (drop k eps)"
    using n1(2) n2(2) by (simp add: take_add add.commute)
  moreover have "Get_outer eps spare (map (\<lambda>t. replicate (t div S) S) (t # totals)) k chunks
      = Inr (k + sum_list (t # totals), chunks @ (n1 @ n2))"
    using n1(1) n2(1) by (simp add: add.assoc)
  ultimately show ?case using n1(3,4) n2(3,4)
    by (intro exI [of _ "n1 @ n2"]) auto
qed

text \<open>
  Claim C8. When \<open>getSetIndexes\<close> succeeds, there is one size \<open>S\<close> between 2 and 16 that
  divides the total of every argument; argument \<open>t\<close> gets \<open>t div S\<close> sets, every one of
  size \<open>S\<close>; and for an endpoint set that holds these indexes and as many endpoints as the
  totals add up to, \<open>Get\<close> returns sets that all have \<open>S\<close> elements and whose
  concatenation is the list of endpoints, whatever the backing array holds past the
  endpoints.
\<close>

theorem getSetIndexes_layout:
  assumes "getSetIndexes args totalSizes custom aps g = (Inr idx, g')"
  shows "\<exists>S. 2 \<le> S \<and> S \<le> 16 \<and> (\<forall>t\<in>set totalSizes. S dvd t)
           \<and> idx = map (\<lambda>t. replicate (t div S) S) totalSizes
           \<and> (\<forall>s. setIndexes s = idx \<and> length (getEndpoints Expand s) = sum_list totalSizes \<longrightarrow>
                (\<exists>chunks. Get Expand spare s = Inr chunks \<and> concat chunks = getEndpoints Expand s
                   \<and> (\<forall>x\<in>set chunks. length x = S)
                   \<and> length chunks = sum_list (map (\<lambda>t. t div S) totalSizes)))"
proof -
  from getSetIndexes_success [OF assms] obtain S where S:
    "2 \<le> S" "S \<le> 16" "\<forall>t\<in>set totalSizes. S dvd t"
    "idx = map (\<lambda>t. replicate (t div S) S) totalSizes" by blast
  have "\<exists>chunks. Get Expand spare s = Inr chunks \<and> concat chunks = getEndpoints Expand s
                   \<and> (\<forall>x\<in>set chunks. length x = S)
                   \<and> length chunks = sum_list (map (\<lambda>t. t div S) totalSizes)"
    if s: "setIndexes s = idx" "length (getEndpoints Expand s) = sum_list totalSizes" for s
  proof -
    have "0 < S" using S(1) by simp
    moreover have "0 + sum_list totalSizes \<le> length (getEndpoints Expand s)" using s(2) by simp
    ultimately obtain new where new:
      "Get_outer (getEndpoints Expand s) spare (map (\<lambda>t. replicate (t div S) S) totalSizes) 0 []
         = Inr (0 + sum_list totalSizes, [] @ new)"
      "concat new = take (sum_list totalSizes) (drop 0 (getEndpoints Expand s))"
      "\<forall>x\<in>set new. length x = S" "length new = sum_list (map (\<lambda>t. t div S) totalSizes)"
      using Get_outer_chunks [OF _ S(3), of 0 "getEndpoints Expand s" spare "[]"] by blast
    then show ?thesis using s S(4) by (simp add: Get_def)
  qed
  with S show ?thesis by blast
qed

theorem getSetIndexes_layout_witness:
  "getSetIndexes [''/d{1...4}''] [4] 2 None False = (Inr [[2, 2]], True)
   \<and> (\<exists>chunks. Get (\<lambda>a. []) [''/d5'']
                  \<lparr>argPatterns = [], endpoints = [''/d1'', ''/d2'', ''/d3'', ''/d4''],
                   setIndexes = [[2, 2]]\<rparr> = Inr chunks
          \<and> concat chunks = [''/d1'', ''/d2'', ''/d3'', ''/d4''])"
proof -
  let ?s = "\<lparr>argPatterns = [], endpoints = [''/d1'', ''/d2'', ''/d3'', ''/d4''],
             setIndexes = [[2, 2]]\<rparr>"
  have run: "getSetIndexes [''/d{1...4}''] [4] 2 None False = (Inr [[2, 2]], True)"
    by code_simp
  have eps: "getEndpoints (\<lambda>a. []) ?s = [''/d1'', ''/d2'', ''/d3'', ''/d4'']"
    by (simp add: getEndpoints_def)
  from getSetIndexes_layout [OF run, where Expand = "\<lambda>a. []" and spare = "[''/d5'']"]
  obtain S where
    "\<forall>s. setIndexes s = [[2, 2]] \<and> length (getEndpoints (\<lambda>a. []) s) = sum_list [4] \<longrightarrow>
       (\<exists>chunks. Get (\<lambda>a. []) [''/d5''] s = Inr chunks \<and> concat chunks = getEndpoints (\<lambda>a. []) s
          \<and> (\<forall>x\<in>set chunks. length x = S)
          \<and> length chunks = sum_list (map (\<lambda>t. t div S) [4]))"
    by blast
  then have "setIndexes ?s = [[2, 2]] \<and> length (getEndpoints (\<lambda>a. []) ?s) = sum_list [4] \<longrightarrow>
       (\<exists>chunks. Get (\<lambda>a. []) [''/d5''] ?s = Inr chunks
          \<and> concat chunks = getEndpoints (\<lambda>a. []) ?s
          \<and> (\<forall>x\<in>set chunks. length x = S)
          \<and> length chunks = sum_list (map (\<lambda>t. t div S) [4]))"
    by (rule spec)
  then have "\<exists>chunks. Get (\<lambda>a. []) [''/d5''] ?s = Inr chunks
      \<and> concat chunks = getEndpoints (\<lambda>a. []) ?s"
    using eps by auto
  with run eps show ?thesis by simp
qed

subsection \<open>The size chosen without an override\<close>

lemma getDivisibleSize_pos:
  assumes "getDivisibleSize totalSizes = Inr G" and "\<forall>t\<in>set totalSizes. 2 \<le> t"
  shows "0 < G"
proof (rule ccontr)
  assume "\<not> 0 < G"
  then have G0: "G = 0" by simp
  from assms(1) have ne: "totalSizes \<noteq> []"
    by (auto simp: getDivisibleSize_def split: list.splits)
  then have "hd totalSizes \<in> set totalSizes" by simp
  moreover from this have "G dvd hd totalSizes" using getDivisibleSize_dvd [OF assms(1)] by blast
  ultimately show False using G0 assms(2) by force
qed

text \<open>
  Claim C6. Take a non-empty ascending list of candidate set sizes that all divide \<open>G\<close>,
  the GCD of the argument totals (positive, as the GCD of numbers of drives). Then
  \<open>commonSetDriveCount\<close> returns a candidate \<open>s\<close> that is the largest of the list and has
  the least quotient \<open>G div s\<close>, so that a candidate with the same quotient is not larger
  than \<open>s\<close>. And every run of \<open>getSetIndexes\<close> without an override that passes the checks
  on its arguments, has \<open>G\<close> as the GCD of its totals and this list as its symmetric
  candidates succeeds with \<open>s\<close> as the size of every set: argument \<open>t\<close> gets \<open>t div s\<close>
  sets of size \<open>s\<close>.
\<close>

theorem getSetIndexes_chooses_largest:
  assumes "setCounts \<noteq> []" and "sorted setCounts"
    and "\<forall>c\<in>set setCounts. c dvd G" and "0 < G"
  shows "\<exists>s. commonSetDriveCount G setCounts = Inr s \<and> s \<in> set setCounts \<and> s dvd G
           \<and> s = Max (set setCounts)
           \<and> (\<forall>c\<in>set setCounts. G div s \<le> G div c \<and> (G div c = G div s \<longrightarrow> c \<le> s))
           \<and> (\<forall>args totalSizes aps g.
                 args \<noteq> [] \<and> (\<forall>t\<in>set totalSizes. 2 \<le> t)
                 \<and> getDivisibleSize totalSizes = Inr G
                 \<and> possibleSetCountsWithSymmetry (possibleSetCounts G) aps = Inr setCounts
                 \<longrightarrow> getSetIndexes args totalSizes 0 aps g
                       = (Inr (map (\<lambda>t. replicate (t div s) s) totalSizes), g))"
proof -
  from commonSetDriveCount_largest [OF assms] obtain s where s:
    "commonSetDriveCount G setCounts = Inr s" "s \<in> set setCounts" "s dvd G"
    "s = Max (set setCounts)"
    "\<forall>c\<in>set setCounts. G div s \<le> G div c \<and> (G div c = G div s \<longrightarrow> c \<le> s)"
    by blast
  have "getSetIndexes args totalSizes 0 aps g
          = (Inr (map (\<lambda>t. replicate (t div s) s) totalSizes), g)"
    if run: "args \<noteq> []" "\<forall>t\<in>set totalSizes. 2 \<le> t" "getDivisibleSize totalSizes = Inr G"
      "possibleSetCountsWithSymmetry (possibleSetCounts G) aps = Inr setCounts"
    for args totalSizes aps g
  proof -
    have ne: "totalSizes \<noteq> []" using run(3)
      by (auto simp: getDivisibleSize_def split: list.splits)
    have guard: "\<not> list_ex (\<lambda>totalSize. totalSize < hd setSizes \<or> totalSize < 0) totalSizes"
      using run(2) by (auto simp: list_ex_iff setSizes_def)
    have "set setCounts \<subseteq> set (possibleSetCounts G)"
      using possibleSetCountsWithSymmetry_subset [OF run(4)] by simp
    then have cands: "possibleSetCounts G \<noteq> []" and "s \<in> set (possibleSetCounts G)"
      using s(2) by auto
    then have "isValidSetSize s"
      using possibleSetCounts_dvd [of s G] by (simp add: isValidSetSize_range)
    then have "fillSetIndexes totalSizes s
                 = Inr (map (\<lambda>t. replicate (t div s) s) totalSizes)"
      by (simp add: fillSetIndexes_def)
    then show ?thesis
      using run(1,3,4) ne guard cands s(1) assms(1) by (simp add: getSetIndexes_def)
  qed
  with s show ?thesis by blast
qed

theorem getSetIndexes_chooses_largest_witness:
  "commonSetDriveCount 16 [2, 4, 8, 16] = Inr 16
   \<and> getSetIndexes [''http://h{1...4}/d{1...4}''] [16] 0
        (Some [[\<lparr>Pattern.Prefix = [], Suffix = [], Seq = [''1'', ''2'', ''3'', ''4'']\<rparr>,
                \<lparr>Pattern.Prefix = ''http://h'', Suffix = ''/d'',
                 Seq = [''1'', ''2'', ''3'', ''4'']\<rparr>]]) False
      = (Inr [[16]], False)"
proof -
  let ?aps = "Some [[\<lparr>Pattern.Prefix = [], Suffix = [], Seq = [''1'', ''2'', ''3'', ''4'']\<rparr>,
                \<lparr>Pattern.Prefix = ''http://h'', Suffix = ''/d'',
                 Seq = [''1'', ''2'', ''3'', ''4'']\<rparr>]]"
  have G: "getDivisibleSize [16] = Inr 16" by (simp add: getDivisibleSize_def)
  have sym: "possibleSetCountsWithSymmetry (possibleSetCounts 16) ?aps = Inr [2, 4, 8, 16]"
    by code_simp
  have srt: "sorted [2, 4, 8, 16 :: nat]" by simp
  have dv: "\<forall>c\<in>set [2, 4, 8, 16 :: nat]. c dvd 16" by simp
  from getSetIndexes_chooses_largest [of "[2, 4, 8, 16]" 16, OF _ srt dv] obtain s where s:
    "commonSetDriveCount 16 [2, 4, 8, 16] = Inr s" "s = Max (set [2, 4, 8, 16])"
    "\<forall>args totalSizes aps g.
        args \<noteq> [] \<and> (\<forall>t\<in>set totalSizes. 2 \<le> t)
        \<and> getDivisibleSize totalSizes = Inr 16
        \<and> possibleSetCountsWithSymmetry (possibleSetCounts 16) aps = Inr [2, 4, 8, 16]
        \<longrightarrow> getSetIndexes args totalSizes 0 aps g
              = (Inr (map (\<lambda>t. replicate (t div s) s) totalSizes), g)"
    by auto
  have s16: "s = 16" using s(2) by simp
  have rep: "replicate 1 (16 :: nat) = [16]" by simp
  have "getSetIndexes [''http://h{1...4}/d{1...4}''] [16] 0 ?aps False
          = (Inr (map (\<lambda>t. replicate (t div s) s) [16]), False)"
    using s(3) G sym by simp
  then show ?thesis using s(1) s16 by simp
qed

subsection \<open>The drive-count override\<close>

text \<open>
  Claim C7, as the code has it. The override is looked up in the candidate sizes only
  after the earlier checks of \<open>getSetIndexes\<close>: the arguments and totals are not empty,
  every total is at least 2 and at least the override, and some supported size divides the
  GCD of the totals. When these hold and the override is positive: if it is one of the
  candidates, every set gets the override as its size (and the global flag is set);
  otherwise the result is the error \<open>ErrInvalidErasureSetSize\<close>.
\<close>

theorem getSetIndexes_custom:
  assumes "args \<noteq> []" and "totalSizes \<noteq> []"
    and "\<forall>t\<in>set totalSizes. 2 \<le> t \<and> custom \<le> t"
    and "getDivisibleSize totalSizes = Inr G" and "possibleSetCounts G \<noteq> []"
    and "0 < custom"
  shows "(custom \<in> set (possibleSetCounts G) \<longrightarrow>
            getSetIndexes args totalSizes custom aps g
              = (Inr (map (\<lambda>t. replicate (t div custom) custom) totalSizes), True))
       \<and> (custom \<notin> set (possibleSetCounts G) \<longrightarrow>
            getSetIndexes args totalSizes custom aps g = (Inl ErrInvalidErasureSetSize, g))"
proof -
  have "\<not> list_ex (\<lambda>totalSize. totalSize < hd setSizes \<or> totalSize < custom) totalSizes"
    using assms(3) by (auto simp: list_ex_iff setSizes_def)
  moreover have "isValidSetSize custom" if "custom \<in> set (possibleSetCounts G)"
    using possibleSetCounts_dvd [OF that] by (simp add: isValidSetSize_range)
  ultimately show ?thesis using assms
    by (auto simp: getSetIndexes_def fillSetIndexes_def)
qed

theorem getSetIndexes_custom_witness:
  "getSetIndexes [''/d{1...16}''] [16] 8 None False = (Inr [[8, 8]], True)
   \<and> getSetIndexes [''/d{1...16}''] [16] 5 None False = (Inl ErrInvalidErasureSetSize, False)"
proof -
  have G: "getDivisibleSize [16] = Inr 16" by (simp add: getDivisibleSize_def)
  have cands: "possibleSetCounts 16 = [2, 4, 8, 16]"
    by (simp add: possibleSetCounts_def setSizes_def)
  have rep: "replicate 2 (8 :: nat) = [8, 8]" by code_simp
  have "getSetIndexes [''/d{1...16}''] [16] 8 None False = (Inr [[8, 8]], True)"
    using getSetIndexes_custom [of "[''/d{1...16}'']" "[16]" 8 16 None False] G cands
    by (simp add: rep)
  moreover have "getSetIndexes [''/d{1...16}''] [16] 5 None False = (Inl ErrInvalidErasureSetSize, False)"
    using getSetIndexes_custom [of "[''/d{1...16}'']" "[16]" 5 16 None False] G cands by simp
  ultimately show ?thesis by blast
qed

text \<open>
  The claim as the specification words it (any override that is not a candidate gives
  \<open>ErrInvalidErasureSetSize\<close>) fails where an earlier check answers first: with four
  drives and an override of 8, the override is not among the candidates 2 and 4, and the
  error is \<open>ErrInvalidNumberOfErasureEndpoints\<close>.
\<close>

theorem getSetIndexes_custom_counterexample:
  "(0 :: nat) < 8 \<and> getDivisibleSize [4] = Inr 4 \<and> 8 \<notin> set (possibleSetCounts 4)
   \<and> getSetIndexes [''/d{1...4}''] [4] 8
        (Some [[\<lparr>Pattern.Prefix = ''/d'', Suffix = [], Seq = [''1'', ''2'', ''3'', ''4'']\<rparr>]]) False
      = (Inl ErrInvalidNumberOfErasureEndpoints, False)
   \<and> ErrInvalidNumberOfErasureEndpoints \<noteq> ErrInvalidErasureSetSize"
  by (simp add: possibleSetCounts_def setSizes_def getDivisibleSize_def getSetIndexes_def)

subsection \<open>Symmetry of the candidate sizes\<close>

text \<open>
  Claim C2 at an argument with two patterns, \<^verbatim>\<open>{1...3}\<close> and then \<^verbatim>\<open>{1...4}\<close> (as in
  \<^verbatim>\<open>http://host{1...4}/data{1...3}\<close>, 12 drives), and the candidate sizes 2, 3, 4, 6 and
  12. The variable \<^verbatim>\<open>symmetry\<close> is overwritten by every pattern, so the last pattern
  alone decides: sizes 2 and 4 are kept, although the pattern of length 3 is symmetric with
  neither; by the claim only 12 is kept.
\<close>

theorem possibleSetCountsWithSymmetry_last_pattern_decides:
  "possibleSetCountsWithSymmetry [2, 3, 4, 6, 12]
     (Some [[\<lparr>Pattern.Prefix = [], Suffix = [], Seq = [''1'', ''2'', ''3'']\<rparr>,
             \<lparr>Pattern.Prefix = ''http://host'', Suffix = ''/data'',
              Seq = [''1'', ''2'', ''3'', ''4'']\<rparr>]])
     = Inr [2, 4, 12]
   \<and> filter (\<lambda>s. symmetric_with_every_pattern s
        [[\<lparr>Pattern.Prefix = [], Suffix = [], Seq = [''1'', ''2'', ''3'']\<rparr>,
          \<lparr>Pattern.Prefix = ''http://host'', Suffix = ''/data'',
           Seq = [''1'', ''2'', ''3'', ''4'']\<rparr>]])
        [2, 3, 4, 6, 12] = [12]"
  by (simp add: possibleSetCountsWithSymmetry_def symmetric_with_every_pattern_def)

section \<open>Properties of the object listing\<close>

subsection \<open>The conflict resolver of the merge\<close>

text \<open>
  For two objects whose metadata decodes, the resolver compares the numbers of versions
  and nothing else: the test on the modification times compares a time with itself and
  never holds.
\<close>

lemma pick_both_objects:
  "\<not> isDir existing \<Longrightarrow> \<not> isDir other \<Longrightarrow> xlmeta existing = Inr eMeta \<Longrightarrow> xlmeta other = Inr oMeta
   \<Longrightarrow> pick isDir xlmeta latestModtime existing other
       = (length (versions oMeta) > length (versions eMeta))"
  by (simp add: pick_def)

text \<open>
  Claim C1 at two copies of \<^verbatim>\<open>a.jpg\<close> with one version each, the existing one of time
  100 and the other one of time 200. By the claim the other entry, whose latest version is
  strictly newer, replaces the existing one; \<open>pick\<close> keeps the existing one, because
  the numbers of versions are equal.
\<close>

theorem pick_ignores_newer_modtime:
  "pick example_isDir example_xlmeta example_latestModtime
     \<lparr>name = ''a.jpg'', metadata = ''one version, modtime 100''\<rparr>
     \<lparr>name = ''a.jpg'', metadata = ''one version, modtime 200''\<rparr> = False
   \<and> pick_specified example_isDir example_latestModtime
       \<lparr>name = ''a.jpg'', metadata = ''one version, modtime 100''\<rparr>
       \<lparr>versions = [\<lparr>ModTime = 100, VersionID = ''v1''\<rparr>]\<rparr>
       \<lparr>name = ''a.jpg'', metadata = ''one version, modtime 200''\<rparr>
       \<lparr>versions = [\<lparr>ModTime = 200, VersionID = ''v2''\<rparr>]\<rparr> = True
   \<and> example_xlmeta \<lparr>name = ''a.jpg'', metadata = ''one version, modtime 100''\<rparr>
       = Inr \<lparr>versions = [\<lparr>ModTime = 100, VersionID = ''v1''\<rparr>]\<rparr>
   \<and> example_xlmeta \<lparr>name = ''a.jpg'', metadata = ''one version, modtime 200''\<rparr>
       = Inr \<lparr>versions = [\<lparr>ModTime = 200, VersionID = ''v2''\<rparr>]\<rparr>"
  by (simp add: pick_def pick_specified_def example_isDir_def example_xlmeta_def
      example_latestModtime_def)

subsection \<open>The bucket-action filter\<close>

lemma expires_Inl [simp]: "fileInfo D obj (Bucket opt) = Inl e \<Longrightarrow> \<not> expires D opt obj"
  by (simp add: expires_def)

lemma restoreExpires_Inl [simp]:
  "fileInfo D obj (Bucket opt) = Inl e \<Longrightarrow> \<not> restoreExpires D opt obj"
  by (simp add: restoreExpires_def)

lemma passes_Inl [simp]: "fileInfo D obj (Bucket opt) = Inl e \<Longrightarrow> \<not> passes D opt obj"
  by (simp add: passes_def)

lemma selectsBefore_0 [simp]: "selectsBefore D opt inp 0 = 0"
  by (simp add: selectsBefore_def)

lemma selectsBefore_Suc [simp]:
  "selectsBefore D opt (obj # rest) (Suc i)
     = (if passes D opt obj then Suc (Suc (selectsBefore D opt rest i))
        else Suc (selectsBefore D opt rest i))"
  by (simp add: selectsBefore_def)

lemma handledUpTo_0:
  "ctxDone k \<or> (passes D opt obj \<and> ctxDone (Suc k)) \<Longrightarrow> handledUpTo D opt ctxDone k (obj # rest) 0"
  by (simp add: handledUpTo_def)

lemma handledUpTo_Suc_skip:
  "\<not> ctxDone k \<Longrightarrow> \<not> passes D opt obj \<Longrightarrow> handledUpTo D opt ctxDone (Suc k) rest n
   \<Longrightarrow> handledUpTo D opt ctxDone k (obj # rest) (Suc n)"
  by (auto simp: handledUpTo_def less_Suc_eq_0_disj)

lemma handledUpTo_Suc_pass:
  "\<not> ctxDone k \<Longrightarrow> \<not> ctxDone (Suc k) \<Longrightarrow> passes D opt obj
   \<Longrightarrow> handledUpTo D opt ctxDone (Suc (Suc k)) rest n
   \<Longrightarrow> handledUpTo D opt ctxDone k (obj # rest) (Suc n)"
  by (auto simp: handledUpTo_def less_Suc_eq_0_disj)

lemma applyBucketActions_loop_prefix:
  "\<exists>n\<le>length inp.
     handledUpTo D opt ctxDone k inp n
   \<and> out (applyBucketActions_loop D opt ctxDone k inp eff)
       = out eff @ filter (passes D opt) (take n inp)
   \<and> enqueueByDays (applyBucketActions_loop D opt ctxDone k inp eff)
       = enqueueByDays eff
         @ map (expiryJob D opt)
             (filter (\<lambda>obj. expires D opt obj \<or> restoreExpires D opt obj) (take n inp))
   \<and> queueReplicationHeal (applyBucketActions_loop D opt ctxDone k inp eff)
       = queueReplicationHeal eff @ map (healJob D opt) (filter (passes D opt) (take n inp))
   \<and> out_closed (applyBucketActions_loop D opt ctxDone k inp eff) = out_closed eff"
proof (induction inp arbitrary: k eff)
  case Nil
  then show ?case by (simp add: handledUpTo_def)
next
  case (Cons obj rest)
  let ?P = "\<lambda>n r. n \<le> length (obj # rest) \<and> handledUpTo D opt ctxDone k (obj # rest) n \<and>
     out r = out eff @ filter (passes D opt) (take n (obj # rest))
   \<and> enqueueByDays r
       = enqueueByDays eff
         @ map (expiryJob D opt)
             (filter (\<lambda>obj. expires D opt obj \<or> restoreExpires D opt obj) (take n (obj # rest)))
   \<and> queueReplicationHeal r
       = queueReplicationHeal eff @ map (healJob D opt) (filter (passes D opt) (take n (obj # rest)))
   \<and> out_closed r = out_closed eff"
  show ?case
  proof (cases "ctxDone k")
    case True
    then have "?P 0 (applyBucketActions_loop D opt ctxDone k (obj # rest) eff)"
      by (simp add: handledUpTo_0)
    then show ?thesis by blast
  next
    case notdone: False
    show ?thesis
    proof (cases "fileInfo D obj (Bucket opt)")
      case (Inl e)
      have np: "\<not> passes D opt obj" using Inl by simp
      from Cons.IH [of "Suc k" eff] obtain n where
        "?P (Suc n) (applyBucketActions_loop D opt ctxDone k (obj # rest) eff)"
        using notdone Inl handledUpTo_Suc_skip [where ctxDone = ctxDone and k = k, OF notdone np] by auto
      then show ?thesis by blast
    next
      case (Inr fi)
      let ?oi = "objInfoOf D opt obj fi"
      let ?a = "actionOf D opt ?oi"
      consider (exp) "?a = Some DeleteVersionAction \<or> ?a = Some DeleteAction"
        | (rexp) "?a = Some DeleteRestoredAction \<or> ?a = Some DeleteRestoredVersionAction"
        | (pass) "?a \<noteq> Some DeleteVersionAction" "?a \<noteq> Some DeleteAction"
            "?a \<noteq> Some DeleteRestoredAction" "?a \<noteq> Some DeleteRestoredVersionAction"
        by blast
      then show ?thesis
      proof cases
        case exp
        have cls: "expires D opt obj" "\<not> restoreExpires D opt obj" "\<not> passes D opt obj"
          using exp Inr by (auto simp: expires_def restoreExpires_def passes_def)
        have job: "expiryJob D opt obj = (?oi, False, ?a = Some DeleteVersionAction)"
          using exp Inr cls by (auto simp: expiryJob_def Let_def)
        let ?eff = "eff\<lparr>enqueueByDays := enqueueByDays eff @ [(?oi, False, ?a = Some DeleteVersionAction)]\<rparr>"
        have run: "applyBucketActions_loop D opt ctxDone k (obj # rest) eff
             = applyBucketActions_loop D opt ctxDone (Suc k) rest ?eff"
          using notdone Inr exp by (simp add: Let_def)
        from Cons.IH [of "Suc k" ?eff] obtain n where
          "?P (Suc n) (applyBucketActions_loop D opt ctxDone k (obj # rest) eff)"
          unfolding run using cls job handledUpTo_Suc_skip [where ctxDone = ctxDone and k = k, OF notdone cls(3)] by auto
        then show ?thesis by blast
      next
        case rexp
        have cls: "\<not> expires D opt obj" "restoreExpires D opt obj" "\<not> passes D opt obj"
          using rexp Inr by (auto simp: expires_def restoreExpires_def passes_def)
        have job: "expiryJob D opt obj = (?oi, True, ?a = Some DeleteRestoredVersionAction)"
          using rexp Inr cls by (auto simp: expiryJob_def Let_def)
        let ?eff = "eff\<lparr>enqueueByDays := enqueueByDays eff @ [(?oi, True, ?a = Some DeleteRestoredVersionAction)]\<rparr>"
        have run: "applyBucketActions_loop D opt ctxDone k (obj # rest) eff
             = applyBucketActions_loop D opt ctxDone (Suc k) rest ?eff"
          using notdone Inr rexp by (auto simp add: Let_def)
        from Cons.IH [of "Suc k" ?eff] obtain n where
          "?P (Suc n) (applyBucketActions_loop D opt ctxDone k (obj # rest) eff)"
          unfolding run using cls job handledUpTo_Suc_skip [where ctxDone = ctxDone and k = k, OF notdone cls(3)] by auto
        then show ?thesis by blast
      next
        case pass
        have cls: "\<not> expires D opt obj" "\<not> restoreExpires D opt obj" "passes D opt obj"
          using pass Inr by (auto simp: expires_def restoreExpires_def passes_def)
        have heal: "healJob D opt obj = ?oi" using Inr by (simp add: healJob_def)
        show ?thesis
        proof (cases "ctxDone (Suc k)")
          case True
          then have "applyBucketActions_loop D opt ctxDone k (obj # rest) eff = eff"
            using notdone Inr pass by (simp add: Let_def)
          then have "?P 0 (applyBucketActions_loop D opt ctxDone k (obj # rest) eff)"
            using True cls(3) by (simp add: handledUpTo_0)
          then show ?thesis by blast
        next
          case False
          let ?eff = "eff\<lparr>out := out eff @ [obj],
                          queueReplicationHeal := queueReplicationHeal eff @ [?oi]\<rparr>"
          have run: "applyBucketActions_loop D opt ctxDone k (obj # rest) eff
             = applyBucketActions_loop D opt ctxDone (Suc (Suc k)) rest ?eff"
            using notdone Inr pass False by (simp add: Let_def)
          from Cons.IH [of "Suc (Suc k)" ?eff] obtain n where
            "?P (Suc n) (applyBucketActions_loop D opt ctxDone k (obj # rest) eff)"
            unfolding run using cls heal handledUpTo_Suc_pass [where ctxDone = ctxDone and k = k, OF notdone False cls(3)] by auto
          then show ?thesis by blast
        qed
      qed
    qed
  qed
qed

lemma handledUpTo_unique:
  "handledUpTo D opt ctxDone k inp n \<Longrightarrow> handledUpTo D opt ctxDone k inp m
   \<Longrightarrow> n \<le> length inp \<Longrightarrow> m \<le> length inp \<Longrightarrow> n = m"
proof (rule ccontr)
  assume h: "handledUpTo D opt ctxDone k inp n" "handledUpTo D opt ctxDone k inp m"
    "n \<le> length inp" "m \<le> length inp" and ne: "n \<noteq> m"
  have aux: False if "a < b" "b \<le> length inp" "handledUpTo D opt ctxDone k inp a"
    "handledUpTo D opt ctxDone k inp b" for a b
  proof -
    from that(1,2) have "a < length inp" by simp
    with that(3) have "ctxDone (k + selectsBefore D opt inp a)
        \<or> (passes D opt (inp ! a) \<and> ctxDone (Suc (k + selectsBefore D opt inp a)))"
      by (simp add: handledUpTo_def)
    moreover from that(1,4) have "\<not> ctxDone (k + selectsBefore D opt inp a)
        \<and> (passes D opt (inp ! a) \<longrightarrow> \<not> ctxDone (Suc (k + selectsBefore D opt inp a)))"
      by (simp add: handledUpTo_def)
    ultimately show False by blast
  qed
  from ne consider "n < m" | "m < n" by linarith
  then show False using aux h by cases blast+
qed

text \<open>
  Claim C3, as the code has it. Under any schedule of cancellation there is one number
  \<open>n\<close> of entries that \<open>applyBucketActions\<close> handles, and the schedule fixes it: no
  \<^verbatim>\<open>select\<close> run for the first \<open>n\<close> entries is cancelled, and if entries remain, the
  context is cancelled while the function waits for the entry at position \<open>n\<close> or, that
  entry having decoded with no verdict, while it waits to send it. Of the entries handled,
  those sent on the output, in order, are the ones that decode and have neither an expiry
  nor a restore-expiry verdict; for each entry with verdict Delete or DeleteVersion, and for
  each with verdict DeleteRestored or DeleteRestoredVersion, exactly one expiration job is
  enqueued (a restore-expiration job in the second case), in order, and such an entry is
  never sent; the output is closed at the end. When the context is not cancelled, every
  entry of the input is handled.
\<close>

theorem applyBucketActions_filter:
  "\<exists>n\<le>length inp.
     (\<forall>i<n. \<not> ctxDone (selectsBefore D opt inp i)
            \<and> (passes D opt (inp ! i) \<longrightarrow> \<not> ctxDone (Suc (selectsBefore D opt inp i))))
   \<and> (n < length inp \<longrightarrow>
         ctxDone (selectsBefore D opt inp n)
         \<or> (passes D opt (inp ! n) \<and> ctxDone (Suc (selectsBefore D opt inp n))))
   \<and> out (applyBucketActions D opt ctxDone inp) = filter (passes D opt) (take n inp)
   \<and> enqueueByDays (applyBucketActions D opt ctxDone inp)
       = map (expiryJob D opt)
           (filter (\<lambda>obj. expires D opt obj \<or> restoreExpires D opt obj) (take n inp))
   \<and> queueReplicationHeal (applyBucketActions D opt ctxDone inp)
       = map (healJob D opt) (filter (passes D opt) (take n inp))
   \<and> (\<forall>obj\<in>set (out (applyBucketActions D opt ctxDone inp)).
         passes D opt obj \<and> \<not> expires D opt obj \<and> \<not> restoreExpires D opt obj)
   \<and> out_closed (applyBucketActions D opt ctxDone inp)
   \<and> ((\<forall>j. \<not> ctxDone j) \<longrightarrow> n = length inp)"
proof -
  have sound: "\<not> expires D opt obj \<and> \<not> restoreExpires D opt obj" if "passes D opt obj" for obj
    using that by (cases "fileInfo D obj (Bucket opt)") (simp_all add: passes_def)
  from applyBucketActions_loop_prefix [of inp D opt ctxDone 0
      "\<lparr>out = [], out_closed = False, enqueueByDays = [], queueReplicationHeal = []\<rparr>"]
  obtain n where n: "n \<le> length inp"
    "handledUpTo D opt ctxDone 0 inp n"
    "out (applyBucketActions D opt ctxDone inp) = filter (passes D opt) (take n inp)"
    "enqueueByDays (applyBucketActions D opt ctxDone inp)
       = map (expiryJob D opt)
           (filter (\<lambda>obj. expires D opt obj \<or> restoreExpires D opt obj) (take n inp))"
    "queueReplicationHeal (applyBucketActions D opt ctxDone inp)
       = map (healJob D opt) (filter (passes D opt) (take n inp))"
    "out_closed (applyBucketActions D opt ctxDone inp)"
    by (auto simp: applyBucketActions_def)
  have pins: "\<forall>i<n. \<not> ctxDone (selectsBefore D opt inp i)
            \<and> (passes D opt (inp ! i) \<longrightarrow> \<not> ctxDone (Suc (selectsBefore D opt inp i)))"
    "n < length inp \<longrightarrow>
         ctxDone (selectsBefore D opt inp n)
         \<or> (passes D opt (inp ! n) \<and> ctxDone (Suc (selectsBefore D opt inp n)))"
    using n(2) by (simp_all add: handledUpTo_def)
  have all: "(\<forall>j. \<not> ctxDone j) \<longrightarrow> n = length inp"
    using pins(2) n(1) by auto
  have "\<forall>obj\<in>set (out (applyBucketActions D opt ctxDone inp)).
         passes D opt obj \<and> \<not> expires D opt obj \<and> \<not> restoreExpires D opt obj"
    unfolding n(3) using sound by simp
  with n pins all show ?thesis by blast
qed

text \<open>
  Two runs with a rule that expires the objects named \<^verbatim>\<open>old-...\<close>: one that is not
  cancelled, and one that is cancelled when the third entry is awaited, in which the jobs of
  the two entries handled before are enqueued all the same.
\<close>

theorem applyBucketActions_filter_witness:
  "out (applyBucketActions example_deps (example_opts\<lparr>Lifecycle := Some ''expire old''\<rparr>) (\<lambda>k. False)
         [\<lparr>name = ''old-a'', metadata = ''xl''\<rparr>, \<lparr>name = ''b'', metadata = ''xl''\<rparr>,
          \<lparr>name = ''old-c'', metadata = ''xl''\<rparr>])
     = [\<lparr>name = ''b'', metadata = ''xl''\<rparr>]
   \<and> enqueueByDays (applyBucketActions example_deps (example_opts\<lparr>Lifecycle := Some ''expire old''\<rparr>)
         (\<lambda>k. False)
         [\<lparr>name = ''old-a'', metadata = ''xl''\<rparr>, \<lparr>name = ''b'', metadata = ''xl''\<rparr>,
          \<lparr>name = ''old-c'', metadata = ''xl''\<rparr>])
     = [(''old-a'', False, False), (''old-c'', False, False)]
   \<and> out (applyBucketActions example_deps (example_opts\<lparr>Lifecycle := Some ''expire old''\<rparr>)
         (\<lambda>k. k = 2)
         [\<lparr>name = ''old-a'', metadata = ''xl''\<rparr>, \<lparr>name = ''old-c'', metadata = ''xl''\<rparr>,
          \<lparr>name = ''b'', metadata = ''xl''\<rparr>])
     = []
   \<and> enqueueByDays (applyBucketActions example_deps (example_opts\<lparr>Lifecycle := Some ''expire old''\<rparr>)
         (\<lambda>k. k = 2)
         [\<lparr>name = ''old-a'', metadata = ''xl''\<rparr>, \<lparr>name = ''old-c'', metadata = ''xl''\<rparr>,
          \<lparr>name = ''b'', metadata = ''xl''\<rparr>])
     = [(''old-a'', False, False), (''old-c'', False, False)]"
proof -
  let ?opt = "example_opts\<lparr>Lifecycle := Some ''expire old''\<rparr>"
  let ?a = "\<lparr>name = ''old-a'', metadata = ''xl''\<rparr>"
  let ?b = "\<lparr>name = ''b'', metadata = ''xl''\<rparr>"
  let ?c = "\<lparr>name = ''old-c'', metadata = ''xl''\<rparr>"
  have cls:
    "expires example_deps ?opt ?a" "\<not> expires example_deps ?opt ?b" "expires example_deps ?opt ?c"
    "\<And>obj. \<not> restoreExpires example_deps ?opt obj"
    by (simp_all add: expires_def restoreExpires_def example_deps_def example_opts_def
        actionOf_def objInfoOf_def)
  have ps:
    "\<not> passes example_deps ?opt ?a" "passes example_deps ?opt ?b" "\<not> passes example_deps ?opt ?c"
    using cls by (simp_all add: passes_def example_deps_def)
  have jobs:
    "expiryJob example_deps ?opt ?a = (''old-a'', False, False)"
    "expiryJob example_deps ?opt ?c = (''old-c'', False, False)"
    using cls(4) by (simp_all add: expiryJob_def example_deps_def example_opts_def
        actionOf_def objInfoOf_def)
  \<comment> \<open>a run that is not cancelled\<close>
  let ?inp = "[?a, ?b, ?c]"
  let ?r = "applyBucketActions example_deps ?opt (\<lambda>k. False) ?inp"
  from applyBucketActions_filter [of ?inp "\<lambda>k. False" example_deps ?opt] obtain n where
    n: "(\<forall>j::nat. \<not> False) \<longrightarrow> n = length ?inp"
    and o: "out ?r = filter (passes example_deps ?opt) (take n ?inp)"
    and e: "enqueueByDays ?r = map (expiryJob example_deps ?opt)
           (filter (\<lambda>obj. expires example_deps ?opt obj \<or> restoreExpires example_deps ?opt obj)
              (take n ?inp))"
    by blast
  from n have n3: "n = length ?inp" by simp
  have first: "out ?r = [?b]" "enqueueByDays ?r = [(''old-a'', False, False), (''old-c'', False, False)]"
    unfolding o e n3 using cls ps jobs by simp_all
  \<comment> \<open>a run that is cancelled when the third entry is awaited\<close>
  let ?inp2 = "[?a, ?c, ?b]"
  let ?r2 = "applyBucketActions example_deps ?opt (\<lambda>k. k = 2) ?inp2"
  from applyBucketActions_filter [of ?inp2 "\<lambda>k. k = 2" example_deps ?opt] obtain m where
    m: "m \<le> length ?inp2"
    and p1: "\<forall>i<m. \<not> (selectsBefore example_deps ?opt ?inp2 i = 2)
            \<and> (passes example_deps ?opt (?inp2 ! i)
                 \<longrightarrow> \<not> (Suc (selectsBefore example_deps ?opt ?inp2 i) = 2))"
    and p2: "m < length ?inp2 \<longrightarrow>
         selectsBefore example_deps ?opt ?inp2 m = 2
         \<or> (passes example_deps ?opt (?inp2 ! m)
             \<and> Suc (selectsBefore example_deps ?opt ?inp2 m) = 2)"
    and o2: "out ?r2 = filter (passes example_deps ?opt) (take m ?inp2)"
    and e2: "enqueueByDays ?r2 = map (expiryJob example_deps ?opt)
           (filter (\<lambda>obj. expires example_deps ?opt obj \<or> restoreExpires example_deps ?opt obj)
              (take m ?inp2))"
    by blast
  have sel: "selectsBefore example_deps ?opt ?inp2 0 = 0"
    "selectsBefore example_deps ?opt ?inp2 1 = 1"
    "selectsBefore example_deps ?opt ?inp2 2 = 2"
    using ps by (simp_all add: selectsBefore_def numeral_2_eq_2)
  from m have "m = 0 \<or> m = 1 \<or> m = 2 \<or> m = 3" by auto
  moreover have "m \<noteq> 0"
  proof
    assume "m = 0"
    with p2 sel(1) ps show False by simp
  qed
  moreover have "m \<noteq> 1"
  proof
    assume "m = 1"
    with p2 sel(2) ps show False by simp
  qed
  moreover have "m \<noteq> 3"
  proof
    assume "m = 3"
    then have "2 < m" by simp
    with p1 have "\<not> (selectsBefore example_deps ?opt ?inp2 2 = 2)" by blast
    with sel(3) show False by simp
  qed
  ultimately have m2: "m = 2" by blast
  have second: "out ?r2 = []" "enqueueByDays ?r2 = [(''old-a'', False, False), (''old-c'', False, False)]"
    unfolding o2 e2 m2 using cls ps jobs by (simp_all add: numeral_2_eq_2)
  from first second show ?thesis by blast
qed

text \<open>
  The claim as the specification words it lets every other entry that decodes reach the
  output. An entry that has been received and decoded and has no verdict is not sent when
  the context is cancelled while the function waits to send it: the second \<^verbatim>\<open>select\<close>
  returns.
\<close>

theorem applyBucketActions_cancelled_counterexample:
  "passes example_deps example_opts \<lparr>name = ''b'', metadata = ''xl''\<rparr>
   \<and> out (applyBucketActions example_deps example_opts (\<lambda>k. k = 1)
            [\<lparr>name = ''b'', metadata = ''xl''\<rparr>]) = []"
  by (simp add: passes_def expires_def restoreExpires_def applyBucketActions_def
      example_deps_def example_opts_def actionOf_def objInfoOf_def)

subsection \<open>The checks at the start of a listing\<close>

lemma listPath_checks_empty:
  assumes "checkListObjsArgs env (Bucket opt) (listPathOptions.Prefix opt) (Marker opt) = None"
    and "Limit opt = 0
         \<or> (Marker opt \<noteq> [] \<and> listPathOptions.Prefix opt \<noteq> []
             \<and> \<not> HasPrefix env (Marker opt) (listPathOptions.Prefix opt))
         \<or> prefix ''/'' (listPathOptions.Prefix opt)"
  shows "listPath_checks env \<lparr>opts = opt, events = [], uuids = 0\<rparr>
           = Return no_entries (Some EOF) \<lparr>opts = opt, events = [], uuids = 0\<rparr>"
  using assms by (auto simp: listPath_checks_def SlashSeparator_def)

text \<open>
  Claim C5, as the code has it. When \<^verbatim>\<open>checkListObjsArgs\<close> accepts the arguments, and
  the limit is 0, or marker and prefix are both non-empty and the marker does not begin
  with the prefix, or the prefix begins with a slash, both \<open>listPath\<close> functions return
  no entries and \<^verbatim>\<open>io.EOF\<close>; the options are untouched and nothing has happened
  besides: the metacache manager has not been asked and no set has been scanned.
\<close>

theorem listPath_empty_result:
  assumes "checkListObjsArgs env (Bucket opt) (listPathOptions.Prefix opt) (Marker opt) = None"
    and "Limit opt = 0
         \<or> (Marker opt \<noteq> [] \<and> listPathOptions.Prefix opt \<noteq> []
             \<and> \<not> HasPrefix env (Marker opt) (listPathOptions.Prefix opt))
         \<or> prefix ''/'' (listPathOptions.Prefix opt)"
  shows "listPath env z opt = Return no_entries (Some EOF) \<lparr>opts = opt, events = [], uuids = 0\<rparr>
       \<and> listPath_single env es opt
           = Return no_entries (Some EOF) \<lparr>opts = opt, events = [], uuids = 0\<rparr>"
  using listPath_checks_empty [OF assms]
  by (simp add: listPath_def listPath_beforeRawList_def listPath_beforeResume_def
      listPath_single_def)

theorem listPath_empty_result_witness:
  "listPath example_env example_pools (example_opts\<lparr>Limit := 0\<rparr>)
     = Return no_entries (Some EOF) \<lparr>opts = example_opts\<lparr>Limit := 0\<rparr>, events = [], uuids = 0\<rparr>
   \<and> listPath_single example_env (ErasureObjects 0)
        (example_opts\<lparr>listPathOptions.Prefix := ''/photos''\<rparr>)
     = Return no_entries (Some EOF)
         \<lparr>opts = example_opts\<lparr>listPathOptions.Prefix := ''/photos''\<rparr>, events = [], uuids = 0\<rparr>"
proof -
  have "listPath example_env example_pools (example_opts\<lparr>Limit := 0\<rparr>)
     = Return no_entries (Some EOF) \<lparr>opts = example_opts\<lparr>Limit := 0\<rparr>, events = [], uuids = 0\<rparr>"
    using listPath_empty_result [of example_env "example_opts\<lparr>Limit := 0\<rparr>" example_pools]
    by (simp add: example_env_def example_opts_def)
  moreover have "listPath_single example_env (ErasureObjects 0)
        (example_opts\<lparr>listPathOptions.Prefix := ''/photos''\<rparr>)
     = Return no_entries (Some EOF)
         \<lparr>opts = example_opts\<lparr>listPathOptions.Prefix := ''/photos''\<rparr>, events = [], uuids = 0\<rparr>"
    using listPath_empty_result [of example_env "example_opts\<lparr>listPathOptions.Prefix := ''/photos''\<rparr>"
        example_pools "ErasureObjects 0"]
    by (simp add: example_env_def example_opts_def)
  ultimately show ?thesis by blast
qed

text \<open>
  The claim as the specification words it holds for every call. The arguments are checked
  first, though: for an empty bucket name and a limit of 0 the error of
  \<^verbatim>\<open>checkListObjsArgs\<close> is returned, not \<^verbatim>\<open>io.EOF\<close>.
\<close>

theorem listPath_empty_result_counterexample:
  "Limit (example_opts\<lparr>Bucket := [], Limit := 0\<rparr>) = 0
   \<and> listPath example_env example_pools (example_opts\<lparr>Bucket := [], Limit := 0\<rparr>)
       = Return no_entries (Some (OtherError ''BucketNameInvalid''))
           \<lparr>opts = example_opts\<lparr>Bucket := [], Limit := 0\<rparr>, events = [], uuids = 0\<rparr>
   \<and> OtherError ''BucketNameInvalid'' \<noteq> EOF"
  by (simp add: listPath_def listPath_beforeRawList_def listPath_beforeResume_def
      listPath_checks_def example_env_def example_opts_def)

subsection \<open>Saving a listing when no pool has room\<close>

text \<open>
  Claim C10. When \<^verbatim>\<open>getAvailablePoolIdx\<close> answers a negative index, \<open>listAndSave\<close>
  returns no entries and \<open>errDiskFull\<close>, and leaves the options transient, with
  \<^verbatim>\<open>Create\<close> false and an empty identifier (and pool 0). The events are those of before:
  no cache is saved and no set is scanned.
\<close>

theorem listAndSave_no_space:
  assumes "getAvailablePoolIdx env minioMetaBucket (ID (opts st)) (10 * 2 ^ 20) < 0"
  shows "listAndSave env z st
           = Return no_entries (Some errDiskFull)
               (st\<lparr>opts := (opts st)\<lparr>pool := 0, Create := False, ID := [], Transient := True\<rparr>\<rparr>)"
  using assms by (simp add: listAndSave_def Let_def)

theorem listAndSave_no_space_witness:
  "listAndSave example_env example_pools
     \<lparr>opts = example_opts\<lparr>ID := ''c1'', Create := True\<rparr>, events = [EvFindCache ''photos''], uuids = 0\<rparr>
     = Return no_entries (Some errDiskFull)
         \<lparr>opts = example_opts\<lparr>ID := [], Create := False, Transient := True\<rparr>,
          events = [EvFindCache ''photos''], uuids = 0\<rparr>"
  using listAndSave_no_space [of example_env
      "\<lparr>opts = example_opts\<lparr>ID := ''c1'', Create := True\<rparr>, events = [EvFindCache ''photos''], uuids = 0\<rparr>"
      example_pools]
  by (simp add: example_env_def example_opts_def)

subsection \<open>The raw listing\<close>

lemma listPath_rawList_result:
  assumes "0 < Limit (opts st)" and "Limit (opts st) \<le> maxChanSize env"
    and "listMerged env ((opts st)\<lparr>StopDiskAtLimit := True\<rparr>) = None
         \<or> listMerged env ((opts st)\<lparr>StopDiskAtLimit := True\<rparr>) = Some ctxCanceled"
    and "gatherResults env (opts st) = (gathered, err)"
  shows "\<exists>page st'. listPath_rawList env st
             = Return page (if len gathered > Limit (opts st) \<or> err = None then None else Some EOF) st'
           \<and> o' page = take (nat (Limit (opts st))) (o' gathered)
           \<and> int (length (o' page)) \<le> Limit (opts st)"
  using assms
  by (auto simp: listPath_rawList_def Let_def len_def truncate'_def split: prod.splits)

text \<open>
  Claim C4, as the code has it. When a call of \<open>listPath\<close> reaches the raw listing with
  a positive limit \<open>L\<close> that is a capacity with which the channel of results can be
  made, and \<open>listMerged\<close> ends without error or with \<^verbatim>\<open>context.Canceled\<close>: the page
  returned is the first \<open>L\<close> of the gathered entries, so
  it has at most \<open>L\<close> entries; the listing counts as truncated when more than \<open>L\<close>
  entries were gathered or the gathering returned a nil error; and the error returned is nil
  when truncated and \<^verbatim>\<open>io.EOF\<close> otherwise.
\<close>

theorem listPath_rawList_page:
  assumes "listPath_beforeRawList env z opt = Continue st"
    and "0 < Limit (opts st)" and "Limit (opts st) \<le> maxChanSize env"
    and "listMerged env ((opts st)\<lparr>StopDiskAtLimit := True\<rparr>) = None
         \<or> listMerged env ((opts st)\<lparr>StopDiskAtLimit := True\<rparr>) = Some ctxCanceled"
    and "gatherResults env (opts st) = (gathered, err)"
  shows "\<exists>page st'. listPath env z opt
             = Return page (if len gathered > Limit (opts st) \<or> err = None then None else Some EOF) st'
           \<and> o' page = take (nat (Limit (opts st))) (o' gathered)
           \<and> int (length (o' page)) \<le> Limit (opts st)"
  using listPath_rawList_result [OF assms(2,3,4,5)] assms(1) by (simp add: listPath_def)

lemma example_cold_beforeRawList:
  "listPath_beforeRawList example_env example_pools example_opts
     = Continue \<lparr>opts = example_opts\<lparr>IncludeDirectories := True\<rparr>, events = [], uuids = 0\<rparr>"
  by (simp add: listPath_beforeRawList_def listPath_beforeResume_def listPath_checks_def
      listPath_normalise_def listPath_lookup_def listPath_resume_def
      example_env_def example_opts_def slashSeparator_def SlashSeparator_def Let_def)

theorem listPath_rawList_page_witness:
  "\<exists>page st'. listPath example_env example_pools example_opts = Return page None st'
      \<and> o' page = [\<lparr>name = ''a.jpg'', metadata = ''xl-a''\<rparr>, \<lparr>name = ''b.jpg'', metadata = ''xl-b''\<rparr>]"
proof -
  let ?st = "\<lparr>opts = example_opts\<lparr>IncludeDirectories := True\<rparr>, events = [], uuids = 0\<rparr>"
  let ?g = "\<lparr>o' = example_entries, listID = [], reuse = False\<rparr>"
  have lim: "0 < Limit (opts ?st)" by (simp add: example_opts_def)
  have cap: "Limit (opts ?st) \<le> maxChanSize example_env"
    by (simp add: example_opts_def example_env_def)
  have lm: "listMerged example_env ((opts ?st)\<lparr>StopDiskAtLimit := True\<rparr>) = None
         \<or> listMerged example_env ((opts ?st)\<lparr>StopDiskAtLimit := True\<rparr>) = Some ctxCanceled"
    by (simp add: example_env_def)
  have g: "gatherResults example_env (opts ?st) = (?g, None)"
    by (simp add: example_env_def example_opts_def example_entries_def)
  from listPath_rawList_page [OF example_cold_beforeRawList lim cap lm g]
  show ?thesis by (auto simp: len_def example_opts_def example_entries_def numeral_2_eq_2)
qed

text \<open>
  The claim as the specification words it holds for every raw listing with a positive
  limit. It fails in two places. When \<open>listMerged\<close> fails with another error, that error
  is returned, with the gathered entries as they are: in the first run below one entry was
  gathered up to the end of the listing, which is not truncated, and the error returned is
  the one of the drives, not \<^verbatim>\<open>io.EOF\<close>. And with a limit of \<open>2 ^ 62\<close> the channel of
  results cannot be made: the second run panics and returns no page.
\<close>

theorem listPath_rawList_page_counterexample:
  "0 < Limit example_opts
   \<and> listPath_beforeRawList
        (example_env\<lparr>gatherResults := (\<lambda>opt. (\<lparr>o' = take 1 example_entries, listID = [], reuse = False\<rparr>, Some EOF)),
                     listMerged := (\<lambda>opt. Some (OtherError ''drive offline''))\<rparr>)
        example_pools example_opts
       = Continue \<lparr>opts = example_opts\<lparr>IncludeDirectories := True\<rparr>, events = [], uuids = 0\<rparr>
   \<and> listPath
        (example_env\<lparr>gatherResults := (\<lambda>opt. (\<lparr>o' = take 1 example_entries, listID = [], reuse = False\<rparr>, Some EOF)),
                     listMerged := (\<lambda>opt. Some (OtherError ''drive offline''))\<rparr>)
        example_pools example_opts
       = Return \<lparr>o' = [\<lparr>name = ''a.jpg'', metadata = ''xl-a''\<rparr>], listID = [], reuse = False\<rparr>
           (Some (OtherError ''drive offline''))
           \<lparr>opts = example_opts\<lparr>IncludeDirectories := True\<rparr>, events = [EvListMerged], uuids = 0\<rparr>
   \<and> Some (OtherError ''drive offline'') \<noteq> Some EOF
   \<and> Some (OtherError ''drive offline'') \<noteq> None
   \<and> 0 < Limit (example_opts\<lparr>Limit := 2 ^ 62\<rparr>)
   \<and> listPath_beforeRawList example_env example_pools (example_opts\<lparr>Limit := 2 ^ 62\<rparr>)
       = Continue \<lparr>opts = example_opts\<lparr>Limit := 2 ^ 62, IncludeDirectories := True\<rparr>,
                   events = [], uuids = 0\<rparr>
   \<and> listPath example_env example_pools (example_opts\<lparr>Limit := 2 ^ 62\<rparr>)
       = Panic ''makechan: size out of range''
           \<lparr>opts = example_opts\<lparr>Limit := 2 ^ 62, IncludeDirectories := True\<rparr>,
            events = [], uuids = 0\<rparr>"
  by (simp add: listPath_def listPath_rawList_def listPath_beforeRawList_def
      listPath_beforeResume_def listPath_checks_def
      listPath_normalise_def listPath_lookup_def listPath_resume_def
      example_env_def example_opts_def example_entries_def
      slashSeparator_def SlashSeparator_def Let_def)

subsection \<open>Resuming with a pool or set that does not exist\<close>

lemma listPath_abandon_invalid:
  "listPath_abandon no_entries (Some errInvalidPoolSet) st
     = Continue (st\<lparr>opts := (opts st)\<lparr>ID := []\<rparr>,
                   events := events st @ [EvDropCache, EvLogResumeFailed errInvalidPoolSet]\<rparr>)"
  by (simp add: listPath_abandon_def IsErr_def)

text \<open>
  Claim C9. A call of \<open>listPath\<close> that comes to resume a listing (an identifier, not
  transient, not creating) with a pool index that is not below the number of pools, or with
  the index of a pool and a set index that is not below the number of sets of that pool,
  does not index out of range: the resume ends with the error \<^verbatim>\<open>invalid pool/set\<close>, which
  is logged, the two indexes are set to 0 and the identifier is cleared, and the result of
  the call is the result of the raw listing from that state.
\<close>

theorem listPath_invalid_pool_set:
  assumes "listPath_beforeResume env opt = Continue st"
    and "ID (opts st) \<noteq> []" and "\<not> Transient (opts st)" and "\<not> Create (opts st)"
    and "int (length (serverPools z)) \<le> pool (opts st)
         \<or> (0 \<le> pool (opts st) \<and> pool (opts st) < int (length (serverPools z))
            \<and> int (length (sets (serverPools z ! nat (pool (opts st))))) \<le> set' (opts st))"
  shows "listPath_resume env z st
           = Continue (st\<lparr>opts := (opts st)\<lparr>pool := 0, set' := 0, ID := []\<rparr>,
                         events := events st @ [EvDropCache, EvLogResumeFailed errInvalidPoolSet]\<rparr>)
       \<and> listPath env z opt
           = listPath_rawList env
               (st\<lparr>opts := (opts st)\<lparr>pool := 0, set' := 0, ID := []\<rparr>,
                   events := events st @ [EvDropCache, EvLogResumeFailed errInvalidPoolSet]\<rparr>)"
proof -
  have "listPath_resume env z st
           = Continue (st\<lparr>opts := (opts st)\<lparr>pool := 0, set' := 0, ID := []\<rparr>,
                         events := events st @ [EvDropCache, EvLogResumeFailed errInvalidPoolSet]\<rparr>)"
    using assms(2-5) by (auto simp: listPath_resume_def Let_def listPath_abandon_invalid)
  then show ?thesis using assms(1)
    by (simp add: listPath_def listPath_beforeRawList_def)
qed

text \<open>
  Below the range the claim speaks of, a negative pool index passes the first comparison
  and is then used as an index.
\<close>

lemma listPath_resume_negative_pool:
  "ID (opts st) \<noteq> [] \<Longrightarrow> \<not> Transient (opts st) \<Longrightarrow> \<not> Create (opts st) \<Longrightarrow> pool (opts st) < 0
   \<Longrightarrow> listPath_resume env z st = Panic ''index out of range'' st"
  by (simp add: listPath_resume_def Let_def)

lemma example_resume_beforeResume:
  "listPath_beforeResume example_env (example_opts\<lparr>Marker := ''b.jpg[minio_cache:v2,id:c1,p:3,s:0]''\<rparr>)
     = Continue \<lparr>opts = example_opts\<lparr>Marker := ''b.jpg'', ID := ''c1'', pool := 3,
                                     IncludeDirectories := True\<rparr>,
                 events = [EvFindCache ''photos'', EvHandoutTicker ''c1''], uuids = 0\<rparr>"
  by (simp add: listPath_beforeResume_def listPath_checks_def
      listPath_normalise_def listPath_lookup_def listPath_cacheAnswer_def
      example_env_def example_opts_def slashSeparator_def SlashSeparator_def Let_def)

theorem listPath_invalid_pool_set_witness:
  "listPath example_env example_pools (example_opts\<lparr>Marker := ''b.jpg[minio_cache:v2,id:c1,p:3,s:0]''\<rparr>)
     = listPath_rawList example_env
         \<lparr>opts = example_opts\<lparr>Marker := ''b.jpg'', IncludeDirectories := True\<rparr>,
          events = [EvFindCache ''photos'', EvHandoutTicker ''c1'', EvDropCache,
                    EvLogResumeFailed errInvalidPoolSet],
          uuids = 0\<rparr>"
  using listPath_invalid_pool_set [OF example_resume_beforeResume, of example_pools]
  by (simp add: example_opts_def example_pools_def)

end
